theory Spec2Isabelle
  imports
    Main
    "HOL-Library.Monad_Syntax"
    "HOL-Library.Char_ord"
    "HOL-Library.List_Lexorder"
    "HOL-Library.Multiset"
begin

chapter \<open>The model\<close>

section \<open>The Go runtime: pointers, slices and maps\<close>

text \<open>
  Objects live in typed heaps, one list per struct type; a pointer is an index into the
  heap of its type and \<open>new\<close> puts the object at the end. A nilable pointer \<open>*T\<close> is an
  \<open>addr option\<close> (\<open>None\<close> is \<open>nil\<close>). Dereferencing a pointer that is not in the heap is
  a run-time panic: every method returns an \<open>option\<close>, and \<open>None\<close> is the panic.
\<close>

type_synonym addr = nat

definition deref :: "'a list \<Rightarrow> addr \<Rightarrow> 'a option" where
  "deref h p = (if p < length h then Some (h ! p) else None)"

text \<open>
  A slice is Go's three-word header: the backing array, a length and a capacity. Backing
  arrays live in a store of their own, so that two slices can share one. The zero value
  of an element is \<open>None\<close> (a nil pointer, a nil interface).
\<close>

record slice =
  array :: "addr option"
  len :: nat
  cap :: nat

definition nil_slice :: slice where
  "nil_slice = \<lparr>array = None, len = 0, cap = 0\<rparr>"

definition elems :: "'a list list \<Rightarrow> slice \<Rightarrow> 'a list" where
  "elems arrs s = (case array s of None \<Rightarrow> [] | Some a \<Rightarrow> take (len s) (arrs ! a))"

text \<open>\<open>make([]T, n, c)\<close>: a new backing array of \<open>c\<close> zero elements.\<close>

definition make_slice :: "nat \<Rightarrow> nat \<Rightarrow> 'a option list list \<Rightarrow> slice \<times> 'a option list list" where
  "make_slice n c arrs =
     (\<lparr>array = Some (length arrs), len = n, cap = c\<rparr>, arrs @ [replicate c None])"

text \<open>
  \<open>append(s, x)\<close>: written in place while the capacity lasts, else moved to a new,
  larger backing array. How much larger is the runtime's choice (\<open>grow\<close>, given the old
  capacity and the length needed); the new array always holds what is needed.
\<close>

definition append_slice ::
  "(nat \<Rightarrow> nat \<Rightarrow> nat) \<Rightarrow> slice \<Rightarrow> 'a option \<Rightarrow> 'a option list list \<Rightarrow> slice \<times> 'a option list list" where
  "append_slice grow s x arrs =
     (case (if len s < cap s then array s else None) of
        Some a \<Rightarrow> (s\<lparr>len := len s + 1\<rparr>, arrs[a := (arrs ! a)[len s := x]])
      | None \<Rightarrow>
          (let c = max (len s + 1) (grow (cap s) (len s + 1)) in
             (\<lparr>array = Some (length arrs), len = len s + 1, cap = c\<rparr>,
              arrs @ [elems arrs s @ [x] @ replicate (c - (len s + 1)) None])))"

text \<open>\<open>copy(dst, src)\<close>: the first \<open>min(len(dst), len(src))\<close> elements.\<close>

definition copy_slice :: "slice \<Rightarrow> slice \<Rightarrow> 'a list list \<Rightarrow> 'a list list" where
  "copy_slice dst src arrs =
     (case array dst of
        None \<Rightarrow> arrs
      | Some d \<Rightarrow>
          (let n = min (len dst) (len src) in
             arrs[d := take n (elems arrs src) @ drop n (arrs ! d)]))"

text \<open>\<open>s[i]\<close> and \<open>s[i] = v\<close>: an index outside the length panics.\<close>

definition slice_index :: "'a list list \<Rightarrow> slice \<Rightarrow> nat \<Rightarrow> 'a option" where
  "slice_index arrs s i = (if i < len s then Some (elems arrs s ! i) else None)"

definition slice_set :: "slice \<Rightarrow> nat \<Rightarrow> 'a \<Rightarrow> 'a list list \<Rightarrow> 'a list list option" where
  "slice_set s i v arrs =
     (case (if i < len s then array s else None) of
        Some a \<Rightarrow> Some (arrs[a := (arrs ! a)[i := v]])
      | None \<Rightarrow> None)"

text \<open>
  A Go map is a partial function. \<open>for _, v := range m\<close> visits every key once, in an
  order the runtime picks anew for each loop: the order is an argument \<open>ord\<close> of every
  function that ranges over a map, \<open>range_order m ord\<close> says that \<open>ord\<close> is an order
  the runtime can pick, and \<open>len(m)\<close> is the length of \<open>ord\<close>.
\<close>

definition range_order :: "('k \<rightharpoonup> 'v) \<Rightarrow> 'k list \<Rightarrow> bool" where
  "range_order mp ord \<longleftrightarrow> distinct ord \<and> set ord = dom mp"

definition range_values :: "('k \<rightharpoonup> 'v) \<Rightarrow> 'k list \<Rightarrow> 'v list" where
  "range_values mp ord = List.map_filter mp ord"

section \<open>Package flowchart: the data\<close>

text \<open>
  Modelled from the spec: the types \<open>nodeShape\<close> and \<open>edgeShape\<close> and their constants are
  declared outside \<open>src/\<close>; \<open>Flowchart.go\<close> uses \<open>NShapeRect\<close> and \<open>EShapeArrow\<close>. The spec
  lists the node shapes as bracket pairs (rectangle, rounded, circle, rhombus) and the
  edge shapes as connector tokens (plain line, arrow, dotted, dotted arrow, thick, thick
  arrow).
\<close>

datatype nodeShape = NShapeRect | NShapeRoundRect | NShapeCircle | NShapeRhombus

datatype edgeShape =
  EShapeLine | EShapeArrow | EShapeDottedLine | EShapeDottedArrow | EShapeThickLine | EShapeThickArrow

text \<open>
  The structs \<open>Node\<close>, \<open>Edge\<close>, \<open>Subgraph\<close>, \<open>NodeStyle\<close> and \<open>EdgeStyle\<close> are declared
  outside \<open>src/\<close>; the records hold the fields that \<open>Flowchart.go\<close> initialises. Whatever
  other field they have is left at its zero value by these constructors.
\<close>

record Node =
  Node_id :: string
  Node_Shape :: nodeShape

record Edge =
  Edge_From :: "addr option"
  Edge_To :: "addr option"
  Edge_Shape :: edgeShape
  Edge_id :: int

record Subgraph =
  Subgraph_id :: string
  Subgraph_flowchart :: "addr option"

record NodeStyle =
  NodeStyle_id :: string
  NodeStyle_StrokeWidth :: int

record EdgeStyle =
  EdgeStyle_id :: string
  EdgeStyle_StrokeWidth :: int

text \<open>The interface \<open>graphItem\<close>: a \<open>*Node\<close> or a \<open>*Subgraph\<close> with its dynamic type.\<close>

datatype graphItem = NodeItem addr | SubgraphItem addr

type_synonym chartDirection = string

definition DirectionTopDown :: chartDirection where "DirectionTopDown = ''TB''"
definition DirectionBottomUp :: chartDirection where "DirectionBottomUp = ''BT''"
definition DirectionRightLeft :: chartDirection where "DirectionRightLeft = ''RL''"
definition DirectionLeftRight :: chartDirection where "DirectionLeftRight = ''LR''"

record Flowchart =
  nodeStyles :: "string \<rightharpoonup> addr"
  edgeStyles :: "string \<rightharpoonup> addr"
  subgraphs :: "string \<rightharpoonup> addr"
  nodes :: "string \<rightharpoonup> addr"
  edges :: slice
  items :: slice
  Direction :: chartDirection
  DefaultEdgeStyle :: "addr option"

section \<open>Package gantt: the data\<close>

type_synonym axisFormat = string

text \<open>
  The structs \<open>Section\<close> and \<open>Task\<close> are declared outside \<open>src/\<close>. Modelled from the spec:
  a Task has an identifier and belongs to a diagram and to at most one Section; a Section
  is an ordered, named grouping of Tasks.
\<close>

record Task =
  Task_id :: string
  Task_gantt :: "addr option"
  Task_section :: "addr option"

record Section =
  Section_id :: string
  Section_gantt :: "addr option"
  Section_tasks :: slice

record Gantt =
  sectionsMap :: "string \<rightharpoonup> addr"
  sections :: slice
  tasksMap :: "string \<rightharpoonup> addr"
  tasks :: slice
  Title :: string
  AxisFormat :: axisFormat

text \<open>
  A value of type \<open>interface{}\<close>, as the initialisers of \<open>NewGantt\<close> are: a \<open>string\<close>, an
  \<open>axisFormat\<close>, or a value of any other dynamic type (\<open>'v\<close>, which includes the nil
  interface).
\<close>

datatype 'v iface = StringVal string | AxisFormatVal axisFormat | OtherVal 'v

text \<open>
  Go's \<open>error\<close>. \<open>Errorf\<close> carries the message of \<open>fmt.Errorf\<close>; the other two are the
  spec's names for the errors of the constructors that are not under \<open>src/\<close>.
\<close>

datatype error = Errorf string | DuplicateIdentifier | InvalidConfigurationValue

section \<open>The memory\<close>

record mem =
  Flowcharts :: "Flowchart list"
  Nodes :: "Node list"
  Subgraphs :: "Subgraph list"
  Edges :: "Edge list"
  NodeStyles :: "NodeStyle list"
  EdgeStyles :: "EdgeStyle list"
  Gantts :: "Gantt list"
  Sections :: "Section list"
  Tasks :: "Task list"
  ptr_arrays :: "addr option list list"
  item_arrays :: "graphItem option list list"
  growslice :: "nat \<Rightarrow> nat \<Rightarrow> nat"

text \<open>
  The methods of the entities are not under \<open>src/\<close>: \<open>Flowchart.String\<close> and
  \<open>Gantt.String\<close> call them, and the model takes them as parameters. Each reads the
  memory and returns text. \<open>Sprintf\<close> is \<open>fmt.Sprintf\<close> at a format string that is
  computed at run time, with one string operand.
\<close>

record methods =
  NodeStyle_String :: "mem \<Rightarrow> addr \<Rightarrow> string"
  EdgeStyle_String :: "mem \<Rightarrow> addr \<Rightarrow> string"
  Sprintf :: "string \<Rightarrow> string \<Rightarrow> string"
  Node_renderGraph :: "mem \<Rightarrow> addr \<Rightarrow> string"
  Subgraph_renderGraph :: "mem \<Rightarrow> addr \<Rightarrow> string"
  Edge_String :: "mem \<Rightarrow> addr \<Rightarrow> string"
  Task_String :: "mem \<Rightarrow> addr \<Rightarrow> string"
  Section_String :: "mem \<Rightarrow> addr \<Rightarrow> string"

text \<open>
  The memory of a program that has allocated nothing yet. Its runtime doubles the capacity
  of a slice that has to grow.
\<close>

definition empty_mem :: mem where
  "empty_mem =
     \<lparr>Flowcharts = [], Nodes = [], Subgraphs = [], Edges = [], NodeStyles = [], EdgeStyles = [],
      Gantts = [], Sections = [], Tasks = [], ptr_arrays = [], item_arrays = [],
      growslice = (\<lambda>old needed. 2 * old)\<rparr>"

section \<open>Package flowchart: the operations\<close>

definition NewFlowchart :: "mem \<Rightarrow> addr \<times> mem" where
  "NewFlowchart m =
     (let f = \<lparr>nodeStyles = Map.empty, edgeStyles = Map.empty, subgraphs = Map.empty,
                nodes = Map.empty, edges = nil_slice, items = nil_slice,
                Direction = DirectionTopDown, DefaultEdgeStyle = None\<rparr>
      in (length (Flowcharts m), m\<lparr>Flowcharts := Flowcharts m @ [f]\<rparr>))"

fun renderGraph :: "methods \<Rightarrow> mem \<Rightarrow> graphItem \<Rightarrow> string" where
  "renderGraph M m (NodeItem p) = Node_renderGraph M m p"
| "renderGraph M m (SubgraphItem p) = Subgraph_renderGraph M m p"

text \<open>
  \<open>Flowchart.String\<close>. \<open>ord\<close> is the order in which the loop over \<open>fc.nodeStyles\<close> visits
  the map. A nil item or a nil edge in the slices would panic when its method is called.
\<close>

definition Flowchart_String :: "methods \<Rightarrow> string list \<Rightarrow> addr \<Rightarrow> mem \<Rightarrow> string option" where
  "Flowchart_String M ord fc m = do {
     f \<leftarrow> deref (Flowcharts m) fc;
     its \<leftarrow> those (elems (item_arrays m) (items f));
     es \<leftarrow> those (elems (ptr_arrays m) (edges f));
     let text = ''graph '' @ Direction f @ ''\<newline>'';
     let text = (case DefaultEdgeStyle f of
                   None \<Rightarrow> text
                 | Some s \<Rightarrow> text @ Sprintf M (EdgeStyle_String M m s) ''default'');
     let text = foldl (\<lambda>t s. t @ NodeStyle_String M m s) text (range_values (nodeStyles f) ord);
     let text = text @ ''\<newline>'';
     let text = foldl (\<lambda>t i. t @ renderGraph M m i) text its;
     let text = text @ ''\<newline>'';
     let text = foldl (\<lambda>t e. t @ Edge_String M m e) text es;
     Some text
   }"

definition Flowchart_NodeStyle :: "addr \<Rightarrow> string \<Rightarrow> mem \<Rightarrow> (addr \<times> mem) option" where
  "Flowchart_NodeStyle fc ident m = do {
     f \<leftarrow> deref (Flowcharts m) fc;
     (case nodeStyles f ident of
        Some s \<Rightarrow> Some (s, m)
      | None \<Rightarrow>
          (let s = length (NodeStyles m) in
             Some (s, m\<lparr>NodeStyles := NodeStyles m @ [\<lparr>NodeStyle_id = ident, NodeStyle_StrokeWidth = 1\<rparr>],
                        Flowcharts := (Flowcharts m)[fc := f\<lparr>nodeStyles := (nodeStyles f)(ident \<mapsto> s)\<rparr>]\<rparr>)))
   }"

definition Flowchart_EdgeStyle :: "addr \<Rightarrow> string \<Rightarrow> mem \<Rightarrow> (addr \<times> mem) option" where
  "Flowchart_EdgeStyle fc ident m = do {
     f \<leftarrow> deref (Flowcharts m) fc;
     (case edgeStyles f ident of
        Some s \<Rightarrow> Some (s, m)
      | None \<Rightarrow>
          (let s = length (EdgeStyles m) in
             Some (s, m\<lparr>EdgeStyles := EdgeStyles m @ [\<lparr>EdgeStyle_id = ident, EdgeStyle_StrokeWidth = 1\<rparr>],
                        Flowcharts := (Flowcharts m)[fc := f\<lparr>edgeStyles := (edgeStyles f)(ident \<mapsto> s)\<rparr>]\<rparr>)))
   }"

definition AddSubgraph :: "addr \<Rightarrow> string \<Rightarrow> mem \<Rightarrow> (addr option \<times> mem) option" where
  "AddSubgraph fc ident m = do {
     f \<leftarrow> deref (Flowcharts m) fc;
     (case subgraphs f ident of
        Some _ \<Rightarrow> Some (None, m)
      | None \<Rightarrow>
          (let s = length (Subgraphs m);
               (its, arrs) = append_slice (growslice m) (items f) (Some (SubgraphItem s)) (item_arrays m)
           in Some (Some s,
                m\<lparr>Subgraphs := Subgraphs m @ [\<lparr>Subgraph_id = ident, Subgraph_flowchart = Some fc\<rparr>],
                  item_arrays := arrs,
                  Flowcharts := (Flowcharts m)[fc := f\<lparr>subgraphs := (subgraphs f)(ident \<mapsto> s), items := its\<rparr>]\<rparr>)))
   }"

definition AddNode :: "addr \<Rightarrow> string \<Rightarrow> mem \<Rightarrow> (addr option \<times> mem) option" where
  "AddNode fc ident m = do {
     f \<leftarrow> deref (Flowcharts m) fc;
     (case nodes f ident of
        Some _ \<Rightarrow> Some (None, m)
      | None \<Rightarrow>
          (let n = length (Nodes m);
               (its, arrs) = append_slice (growslice m) (items f) (Some (NodeItem n)) (item_arrays m)
           in Some (Some n,
                m\<lparr>Nodes := Nodes m @ [\<lparr>Node_id = ident, Node_Shape = NShapeRect\<rparr>],
                  item_arrays := arrs,
                  Flowcharts := (Flowcharts m)[fc := f\<lparr>nodes := (nodes f)(ident \<mapsto> n), items := its\<rparr>]\<rparr>)))
   }"

text \<open>
  \<open>AddEdge\<close>: the edge is appended first and its \<open>id\<close> is then set to the new length
  minus one.
\<close>

definition AddEdge :: "addr \<Rightarrow> addr option \<Rightarrow> addr option \<Rightarrow> mem \<Rightarrow> (addr option \<times> mem) option" where
  "AddEdge fc frm to m = do {
     f \<leftarrow> deref (Flowcharts m) fc;
     let e = length (Edges m);
     let (es, arrs) = append_slice (growslice m) (edges f) (Some e) (ptr_arrays m);
     Some (Some e,
       m\<lparr>Edges := Edges m @ [\<lparr>Edge_From = frm, Edge_To = to, Edge_Shape = EShapeArrow,
                               Edge_id = int (len es) - 1\<rparr>],
         ptr_arrays := arrs,
         Flowcharts := (Flowcharts m)[fc := f\<lparr>edges := es\<rparr>]\<rparr>)
   }"

definition GetSubgraph :: "addr \<Rightarrow> string \<Rightarrow> mem \<Rightarrow> addr option option" where
  "GetSubgraph fc ident m = do { f \<leftarrow> deref (Flowcharts m) fc; Some (subgraphs f ident) }"

definition GetNode :: "addr \<Rightarrow> string \<Rightarrow> mem \<Rightarrow> addr option option" where
  "GetNode fc ident m = do { f \<leftarrow> deref (Flowcharts m) fc; Some (nodes f ident) }"

definition GetEdge :: "addr \<Rightarrow> int \<Rightarrow> mem \<Rightarrow> addr option option" where
  "GetEdge fc index m = do {
     f \<leftarrow> deref (Flowcharts m) fc;
     if index < 0 \<or> int (len (edges f)) \<le> index then Some None
     else slice_index (ptr_arrays m) (edges f) (nat index)
   }"

text \<open>
  The list operations return a slice, and the memory with its new backing array. \<open>ord\<close>
  is the order in which the loop visits the map.
\<close>

definition ListSubgraphs :: "string list \<Rightarrow> addr \<Rightarrow> mem \<Rightarrow> (slice \<times> mem) option" where
  "ListSubgraphs ord fc m = do {
     f \<leftarrow> deref (Flowcharts m) fc;
     let (values, arrs) =
       foldl (\<lambda>(vs, arrs) v. append_slice (growslice m) vs (Some v) arrs)
         (make_slice 0 (length ord) (ptr_arrays m)) (range_values (subgraphs f) ord);
     Some (values, m\<lparr>ptr_arrays := arrs\<rparr>)
   }"

definition ListNodes :: "string list \<Rightarrow> addr \<Rightarrow> mem \<Rightarrow> (slice \<times> mem) option" where
  "ListNodes ord fc m = do {
     f \<leftarrow> deref (Flowcharts m) fc;
     let (values, arrs) =
       foldl (\<lambda>(vs, arrs) v. append_slice (growslice m) vs (Some v) arrs)
         (make_slice 0 (length ord) (ptr_arrays m)) (range_values (nodes f) ord);
     Some (values, m\<lparr>ptr_arrays := arrs\<rparr>)
   }"

definition ListEdges :: "addr \<Rightarrow> mem \<Rightarrow> (slice \<times> mem) option" where
  "ListEdges fc m = do {
     f \<leftarrow> deref (Flowcharts m) fc;
     let (e, arrs) = make_slice (len (edges f)) (len (edges f)) (ptr_arrays m);
     Some (e, m\<lparr>ptr_arrays := copy_slice e (edges f) arrs\<rparr>)
   }"

section \<open>Package gantt: the operations\<close>

text \<open>
  \<open>NewGantt\<close>. The object is allocated first. The \<open>switch\<close> has no tag: with more than one
  initialiser the second is read as the AxisFormat and control falls through to the
  Title; with exactly one only the Title is read. On an error the pointer returned is
  nil, and the object allocated is garbage.
\<close>

definition NewGantt_Title ::
  "'v iface list \<Rightarrow> addr \<Rightarrow> mem \<Rightarrow> (addr option \<times> error option) \<times> mem" where
  "NewGantt_Title init g m =
     (case init ! 0 of
        StringVal v \<Rightarrow>
          ((Some g, None), m\<lparr>Gantts := (Gantts m)[g := (Gantts m ! g)\<lparr>Title := v\<rparr>]\<rparr>)
      | AxisFormatVal _ \<Rightarrow>
          ((None, Some (Errorf ''value for Title was no string'')),
           m\<lparr>Gantts := (Gantts m)[g := (Gantts m ! g)\<lparr>Title := []\<rparr>]\<rparr>)
      | OtherVal _ \<Rightarrow>
          ((None, Some (Errorf ''value for Title was no string'')),
           m\<lparr>Gantts := (Gantts m)[g := (Gantts m ! g)\<lparr>Title := []\<rparr>]\<rparr>))"

definition NewGantt :: "'v iface list \<Rightarrow> mem \<Rightarrow> (addr option \<times> error option) \<times> mem" where
  "NewGantt init m =
     (let g = length (Gantts m);
          m1 = m\<lparr>Gantts := Gantts m @
                 [\<lparr>sectionsMap = Map.empty, sections = nil_slice, tasksMap = Map.empty,
                   tasks = nil_slice, Title = [], AxisFormat = []\<rparr>]\<rparr>
      in if length init > 1 then
           (case init ! 1 of
              AxisFormatVal v \<Rightarrow>
                NewGantt_Title init g (m1\<lparr>Gantts := (Gantts m1)[g := (Gantts m1 ! g)\<lparr>AxisFormat := v\<rparr>]\<rparr>)
            | StringVal v \<Rightarrow>
                NewGantt_Title init g (m1\<lparr>Gantts := (Gantts m1)[g := (Gantts m1 ! g)\<lparr>AxisFormat := v\<rparr>]\<rparr>)
            | OtherVal _ \<Rightarrow>
                ((None, Some (Errorf ''value for AxisFormat was no axisFormat'')), m1))
         else if length init > 0 then NewGantt_Title init g m1
         else ((Some g, None), m1))"

text \<open>
  \<open>fmt.Sprintln\<close> for string operands: a space between operands, a line end after the
  last.
\<close>

fun Sprintln :: "string list \<Rightarrow> string" where
  "Sprintln [] = ''\<newline>''"
| "Sprintln [x] = x @ ''\<newline>''"
| "Sprintln (x # y # ys) = x @ '' '' @ Sprintln (y # ys)"

definition Gantt_String :: "methods \<Rightarrow> addr \<Rightarrow> mem \<Rightarrow> string option" where
  "Gantt_String M g m = do {
     G \<leftarrow> deref (Gantts m) g;
     ts \<leftarrow> those (elems (ptr_arrays m) (tasks G));
     ss \<leftarrow> those (elems (ptr_arrays m) (sections G));
     let r = ''gantt\<newline>dateFormat YYYY-MM-DDTHH:mm:ssZ\<newline>'';
     let r = (if AxisFormat G \<noteq> [] then r @ Sprintln [''axisFormat'', AxisFormat G] else r);
     let r = (if Title G \<noteq> [] then r @ Sprintln [''title'', Title G] else r);
     let r = foldl (\<lambda>r t. r @ Task_String M m t) r ts;
     let r = foldl (\<lambda>r s. r @ Section_String M m s) r ss;
     Some r
   }"

text \<open>
  Modelled from the spec: \<open>sectionNew\<close> is not under \<open>src/\<close>. By the spec an add fails,
  with no mutation, if the identifier already exists in its scope, and else creates the
  entity; by the comment of \<open>AddSection\<close> the failure is an error.
\<close>

definition sectionNew :: "string \<Rightarrow> addr \<Rightarrow> mem \<Rightarrow> ((addr option \<times> error option) \<times> mem) option" where
  "sectionNew ident g m = do {
     G \<leftarrow> deref (Gantts m) g;
     (case sectionsMap G ident of
        Some _ \<Rightarrow> Some ((None, Some DuplicateIdentifier), m)
      | None \<Rightarrow>
          Some ((Some (length (Sections m)), None),
                m\<lparr>Sections := Sections m @
                    [\<lparr>Section_id = ident, Section_gantt = Some g, Section_tasks = nil_slice\<rparr>]\<rparr>))
   }"

text \<open>
  Modelled from the spec: \<open>taskNew\<close> is not under \<open>src/\<close>. By the spec a Task identifier
  is unique across the whole diagram, whichever Section owns the Task, and an add with an
  identifier already in use fails with no mutation; by the comment of \<open>AddTask\<close> an
  invalid identifier is an error too. What makes an identifier or an initialiser invalid
  is not said: \<open>valid\<close> is a parameter.
\<close>

definition taskNew ::
  "(string \<Rightarrow> 'v iface list \<Rightarrow> bool) \<Rightarrow> string \<Rightarrow> addr \<Rightarrow> addr option \<Rightarrow> 'v iface list \<Rightarrow> mem
     \<Rightarrow> ((addr option \<times> error option) \<times> mem) option" where
  "taskNew valid ident g s init m = do {
     G \<leftarrow> deref (Gantts m) g;
     (case tasksMap G ident of
        Some _ \<Rightarrow> Some ((None, Some DuplicateIdentifier), m)
      | None \<Rightarrow>
          if \<not> valid ident init then Some ((None, Some InvalidConfigurationValue), m)
          else Some ((Some (length (Tasks m)), None),
                     m\<lparr>Tasks := Tasks m @ [\<lparr>Task_id = ident, Task_gantt = Some g, Task_section = s\<rparr>]\<rparr>))
   }"

definition AddSection :: "addr \<Rightarrow> string \<Rightarrow> mem \<Rightarrow> ((addr option \<times> error option) \<times> mem) option" where
  "AddSection g ident m = do {
     ((newSection, err), m1) \<leftarrow> sectionNew ident g m;
     (case (err, newSection) of
        (None, Some s) \<Rightarrow> do {
          G \<leftarrow> deref (Gantts m1) g;
          let (ss, arrs) = append_slice (growslice m1) (sections G) (Some s) (ptr_arrays m1);
          Some ((newSection, err),
                m1\<lparr>ptr_arrays := arrs,
                   Gantts := (Gantts m1)[g := G\<lparr>sectionsMap := (sectionsMap G)(ident \<mapsto> s), sections := ss\<rparr>]\<rparr>)
        }
      | _ \<Rightarrow> Some ((newSection, err), m1))
   }"

definition AddTask ::
  "(string \<Rightarrow> 'v iface list \<Rightarrow> bool) \<Rightarrow> addr \<Rightarrow> string \<Rightarrow> 'v iface list \<Rightarrow> mem
     \<Rightarrow> ((addr option \<times> error option) \<times> mem) option" where
  "AddTask valid g ident init m = do {
     ((newTask, err), m1) \<leftarrow> taskNew valid ident g None init m;
     (case (err, newTask) of
        (None, Some t) \<Rightarrow> do {
          G \<leftarrow> deref (Gantts m1) g;
          let (ts, arrs) = append_slice (growslice m1) (tasks G) (Some t) (ptr_arrays m1);
          Some ((newTask, err),
                m1\<lparr>ptr_arrays := arrs,
                   Gantts := (Gantts m1)[g := G\<lparr>tasksMap := (tasksMap G)(ident \<mapsto> t), tasks := ts\<rparr>]\<rparr>)
        }
      | _ \<Rightarrow> Some ((newTask, err), m1))
   }"

text \<open>
  Modelled from the spec: \<open>Section.AddTask\<close> is not under \<open>src/\<close>. It adds a Task to a
  Section as \<open>Gantt.AddTask\<close> adds one to the diagram: the Task is created by \<open>taskNew\<close>,
  entered in the diagram's one table of Tasks and appended to the Section's own list.
\<close>

definition Section_AddTask ::
  "(string \<Rightarrow> 'v iface list \<Rightarrow> bool) \<Rightarrow> addr \<Rightarrow> string \<Rightarrow> 'v iface list \<Rightarrow> mem
     \<Rightarrow> ((addr option \<times> error option) \<times> mem) option" where
  "Section_AddTask valid s ident init m = do {
     S \<leftarrow> deref (Sections m) s;
     g \<leftarrow> Section_gantt S;
     ((newTask, err), m1) \<leftarrow> taskNew valid ident g (Some s) init m;
     (case (err, newTask) of
        (None, Some t) \<Rightarrow> do {
          G \<leftarrow> deref (Gantts m1) g;
          let (ts, arrs) = append_slice (growslice m1) (Section_tasks S) (Some t) (ptr_arrays m1);
          Some ((newTask, err),
                m1\<lparr>ptr_arrays := arrs,
                   Sections := (Sections m1)[s := S\<lparr>Section_tasks := ts\<rparr>],
                   Gantts := (Gantts m1)[g := G\<lparr>tasksMap := (tasksMap G)(ident \<mapsto> t)\<rparr>]\<rparr>)
        }
      | _ \<Rightarrow> Some ((newTask, err), m1))
   }"

definition GetSection :: "addr \<Rightarrow> string \<Rightarrow> mem \<Rightarrow> addr option option" where
  "GetSection g ident m = do { G \<leftarrow> deref (Gantts m) g; Some (sectionsMap G ident) }"

definition GetTask :: "addr \<Rightarrow> string \<Rightarrow> mem \<Rightarrow> addr option option" where
  "GetTask g ident m = do { G \<leftarrow> deref (Gantts m) g; Some (tasksMap G ident) }"

definition ListSections :: "addr \<Rightarrow> mem \<Rightarrow> (slice \<times> mem) option" where
  "ListSections g m = do {
     G \<leftarrow> deref (Gantts m) g;
     let (allSections, arrs) = make_slice (len (sections G)) (len (sections G)) (ptr_arrays m);
     Some (allSections, m\<lparr>ptr_arrays := copy_slice allSections (sections G) arrs\<rparr>)
   }"

definition ListLocalTasks :: "addr \<Rightarrow> mem \<Rightarrow> (slice \<times> mem) option" where
  "ListLocalTasks g m = do {
     G \<leftarrow> deref (Gantts m) g;
     let (localTasks, arrs) = make_slice (len (tasks G)) (len (tasks G)) (ptr_arrays m);
     Some (localTasks, m\<lparr>ptr_arrays := copy_slice localTasks (tasks G) arrs\<rparr>)
   }"

text \<open>
  \<open>sort.Slice\<close> with the \<open>less\<close> of \<open>ListTasks\<close>: the elements of the slice are put in
  ascending order of the \<open>id\<close> of the Task each points to, in place. Go compares strings
  byte by byte, which is the lexicographic order of \<open>string\<close> here. Reading the \<open>id\<close>
  through a nil pointer panics. (\<open>sort.Slice\<close> promises no order between elements with
  equal keys; this model keeps them in their order.)
\<close>

definition sort_Slice_by_id :: "Task list \<Rightarrow> slice \<Rightarrow> addr option list list \<Rightarrow> addr option list list option" where
  "sort_Slice_by_id h s arrs = do {
     ps \<leftarrow> those (elems arrs s);
     ts \<leftarrow> those (map (deref h) ps);
     (case array s of
        None \<Rightarrow> Some arrs
      | Some a \<Rightarrow>
          Some (arrs[a := map Some (sort_key (\<lambda>p. Task_id (h ! p)) ps) @ drop (len s) (arrs ! a)]))
   }"

definition ListTasks :: "string list \<Rightarrow> addr \<Rightarrow> mem \<Rightarrow> (slice \<times> mem) option" where
  "ListTasks ord g m = do {
     G \<leftarrow> deref (Gantts m) g;
     let (allTasks, arrs) =
       foldl (\<lambda>(vs, arrs) v. append_slice (growslice m) vs (Some v) arrs)
         (make_slice 0 (length ord) (ptr_arrays m)) (range_values (tasksMap G) ord);
     arrs' \<leftarrow> sort_Slice_by_id (Tasks m) allTasks arrs;
     Some (allTasks, m\<lparr>ptr_arrays := arrs'\<rparr>)
   }"

section \<open>Sequences of calls on a Flowchart\<close>

text \<open>
  The calls that change a Flowchart, and a client that makes a list of them on the
  Flowchart \<open>fc\<close>, keeping what each returns.
\<close>

datatype flow_op =
  OpAddNode string | OpAddSubgraph string | OpAddEdge "addr option" "addr option"
| OpNodeStyle string | OpEdgeStyle string

fun flow_call :: "addr \<Rightarrow> flow_op \<Rightarrow> mem \<Rightarrow> (addr option \<times> mem) option" where
  "flow_call fc (OpAddNode i) m = AddNode fc i m"
| "flow_call fc (OpAddSubgraph i) m = AddSubgraph fc i m"
| "flow_call fc (OpAddEdge a b) m = AddEdge fc a b m"
| "flow_call fc (OpNodeStyle i) m = map_option (\<lambda>(s, m'). (Some s, m')) (Flowchart_NodeStyle fc i m)"
| "flow_call fc (OpEdgeStyle i) m = map_option (\<lambda>(s, m'). (Some s, m')) (Flowchart_EdgeStyle fc i m)"

fun flow_calls :: "addr \<Rightarrow> flow_op list \<Rightarrow> mem \<Rightarrow> (addr option list \<times> mem) option" where
  "flow_calls fc [] m = Some ([], m)"
| "flow_calls fc (c # cs) m = do {
     (r, m1) \<leftarrow> flow_call fc c m;
     (rs, m2) \<leftarrow> flow_calls fc cs m1;
     Some (r # rs, m2)
   }"

text \<open>What the calls of \<open>AddEdge\<close> returned, in the order of the calls.\<close>

fun edge_results :: "flow_op list \<Rightarrow> addr option list \<Rightarrow> addr option list" where
  "edge_results (OpAddEdge a b # cs) (r # rs) = r # edge_results cs rs"
| "edge_results (c # cs) (r # rs) = edge_results cs rs"
| "edge_results cs rs = []"

section \<open>Well-formed memory\<close>

text \<open>
  A slice is well formed in a store when its backing array is there and is as long as
  the capacity says; a nil slice has no capacity.
\<close>

definition valid_slice :: "'a list list \<Rightarrow> slice \<Rightarrow> bool" where
  "valid_slice arrs s \<longleftrightarrow>
     len s \<le> cap s \<and>
     (case array s of None \<Rightarrow> cap s = 0 | Some a \<Rightarrow> a < length arrs \<and> length (arrs ! a) = cap s)"

text \<open>
  The edges of the Flowchart \<open>fc\<close> are \<open>es\<close>, in this order, and each edge holds its
  position as its \<open>id\<close>.
\<close>

definition edges_inv :: "addr \<Rightarrow> mem \<Rightarrow> addr list \<Rightarrow> bool" where
  "edges_inv fc m es \<longleftrightarrow>
     fc < length (Flowcharts m) \<and>
     valid_slice (ptr_arrays m) (edges (Flowcharts m ! fc)) \<and>
     elems (ptr_arrays m) (edges (Flowcharts m ! fc)) = map Some es \<and>
     (\<forall>n < length es. es ! n < length (Edges m) \<and> Edge_id (Edges m ! (es ! n)) = int n)"

section \<open>Writing through a slice, and the list operations\<close>

text \<open>
  What a client can do with a slice it holds: assign to an element (\<open>s[i] = v\<close>) and
  append (\<open>s = append(s, v)\<close>). A list of such writes; an assignment outside the
  length panics.
\<close>

datatype 'a slice_write = SetIndex nat 'a | Append 'a

fun slice_writes ::
  "(nat \<Rightarrow> nat \<Rightarrow> nat) \<Rightarrow> 'a option slice_write list \<Rightarrow> slice \<Rightarrow> 'a option list list
     \<Rightarrow> (slice \<times> 'a option list list) option" where
  "slice_writes g [] s arrs = Some (s, arrs)"
| "slice_writes g (SetIndex i v # ws) s arrs = do {
     arrs1 \<leftarrow> slice_set s i v arrs;
     slice_writes g ws s arrs1
   }"
| "slice_writes g (Append v # ws) s arrs =
     (let (s1, arrs1) = append_slice g s v arrs in slice_writes g ws s1 arrs1)"

text \<open>
  The five list operations as one call, what each is to list (the elements of the
  diagram's own slice, or the values of its table in the order of the loop), and what it
  needs of the memory: the diagram is there and its slice is well formed.
\<close>

datatype list_op =
  OpListEdges addr | OpListNodes "string list" addr | OpListSubgraphs "string list" addr
| OpListSections addr | OpListLocalTasks addr

fun list_call :: "list_op \<Rightarrow> mem \<Rightarrow> (slice \<times> mem) option" where
  "list_call (OpListEdges fc) m = ListEdges fc m"
| "list_call (OpListNodes ord fc) m = ListNodes ord fc m"
| "list_call (OpListSubgraphs ord fc) m = ListSubgraphs ord fc m"
| "list_call (OpListSections g) m = ListSections g m"
| "list_call (OpListLocalTasks g) m = ListLocalTasks g m"

fun listed :: "list_op \<Rightarrow> mem \<Rightarrow> addr option list option" where
  "listed (OpListEdges fc) m =
     map_option (\<lambda>f. elems (ptr_arrays m) (edges f)) (deref (Flowcharts m) fc)"
| "listed (OpListNodes ord fc) m =
     map_option (\<lambda>f. map Some (range_values (nodes f) ord)) (deref (Flowcharts m) fc)"
| "listed (OpListSubgraphs ord fc) m =
     map_option (\<lambda>f. map Some (range_values (subgraphs f) ord)) (deref (Flowcharts m) fc)"
| "listed (OpListSections g) m =
     map_option (\<lambda>G. elems (ptr_arrays m) (sections G)) (deref (Gantts m) g)"
| "listed (OpListLocalTasks g) m =
     map_option (\<lambda>G. elems (ptr_arrays m) (tasks G)) (deref (Gantts m) g)"

fun list_ok :: "list_op \<Rightarrow> mem \<Rightarrow> bool" where
  "list_ok (OpListEdges fc) m \<longleftrightarrow>
     fc < length (Flowcharts m) \<and> valid_slice (ptr_arrays m) (edges (Flowcharts m ! fc))"
| "list_ok (OpListNodes ord fc) m \<longleftrightarrow> fc < length (Flowcharts m)"
| "list_ok (OpListSubgraphs ord fc) m \<longleftrightarrow> fc < length (Flowcharts m)"
| "list_ok (OpListSections g) m \<longleftrightarrow>
     g < length (Gantts m) \<and> valid_slice (ptr_arrays m) (sections (Gantts m ! g))"
| "list_ok (OpListLocalTasks g) m \<longleftrightarrow>
     g < length (Gantts m) \<and> valid_slice (ptr_arrays m) (tasks (Gantts m ! g))"

text \<open>The backing array of \<open>s\<close> is not among the first \<open>n\<close> arrays of the store.\<close>

definition fresh_slice :: "nat \<Rightarrow> slice \<Rightarrow> bool" where
  "fresh_slice n s \<longleftrightarrow> (case array s of None \<Rightarrow> False | Some a \<Rightarrow> n \<le> a)"

section \<open>Sequences of calls on a Gantt diagram\<close>

text \<open>
  The calls that add to a Gantt diagram \<open>g\<close>: a Task to the diagram, a Section, and a Task
  to the Section of a given identifier (the client looks the Section up with
  \<open>GetSection\<close> and makes no call if there is none). \<open>valid\<close> is the parameter of
  \<open>taskNew\<close>.
\<close>

datatype 'v gantt_op =
  OpAddTask string "'v iface list" | OpAddSection string | OpSectionAddTask string string "'v iface list"

fun gantt_call ::
  "(string \<Rightarrow> 'v iface list \<Rightarrow> bool) \<Rightarrow> addr \<Rightarrow> 'v gantt_op \<Rightarrow> mem
     \<Rightarrow> ((addr option \<times> error option) \<times> mem) option" where
  "gantt_call valid g (OpAddTask i init) m = AddTask valid g i init m"
| "gantt_call valid g (OpAddSection i) m = AddSection g i m"
| "gantt_call valid g (OpSectionAddTask sid i init) m = do {
     s \<leftarrow> GetSection g sid m;
     (case s of
        None \<Rightarrow> Some ((None, None), m)
      | Some s \<Rightarrow> Section_AddTask valid s i init m)
   }"

fun gantt_calls ::
  "(string \<Rightarrow> 'v iface list \<Rightarrow> bool) \<Rightarrow> addr \<Rightarrow> 'v gantt_op list \<Rightarrow> mem
     \<Rightarrow> ((addr option \<times> error option) list \<times> mem) option" where
  "gantt_calls valid g [] m = Some ([], m)"
| "gantt_calls valid g (c # cs) m = do {
     (r, m1) \<leftarrow> gantt_call valid g c m;
     (rs, m2) \<leftarrow> gantt_calls valid g cs m1;
     Some (r # rs, m2)
   }"

text \<open>The Tasks that the calls returned, in the order of the calls.\<close>

fun task_results :: "'v gantt_op list \<Rightarrow> (addr option \<times> error option) list \<Rightarrow> addr list" where
  "task_results (OpAddSection i # cs) (r # rs) = task_results cs rs"
| "task_results (c # cs) ((Some t, e) # rs) = t # task_results cs rs"
| "task_results (c # cs) (r # rs) = task_results cs rs"
| "task_results cs rs = []"

text \<open>
  The Tasks in the table of the diagram \<open>g\<close> are \<open>ts\<close>, each once; each is entered under
  its own \<open>id\<close>; and the Sections in the table of \<open>g\<close> belong to \<open>g\<close>.
\<close>

definition tasks_inv :: "addr \<Rightarrow> mem \<Rightarrow> addr list \<Rightarrow> bool" where
  "tasks_inv g m ts \<longleftrightarrow>
     g < length (Gantts m) \<and>
     ran (tasksMap (Gantts m ! g)) = set ts \<and> distinct ts \<and>
     (\<forall>k p. tasksMap (Gantts m ! g) k = Some p \<longrightarrow> p < length (Tasks m) \<and> Task_id (Tasks m ! p) = k) \<and>
     (\<forall>k s. sectionsMap (Gantts m ! g) k = Some s \<longrightarrow>
        s < length (Sections m) \<and> Section_gantt (Sections m ! s) = Some g)"

section \<open>A Flowchart with node styles\<close>

text \<open>
  Modelled from the spec: \<open>NodeStyle.String\<close> is not under \<open>src/\<close>. The renderer emits
  one style-definition line for each registered node style, and each line is addressed
  by the identifier of its style. Only that line is modelled, as the keyword \<open>classDef\<close>
  and the identifier; the other methods render nothing here.
\<close>

definition style_line_methods :: methods where
  "style_line_methods =
     \<lparr>NodeStyle_String =
        (\<lambda>m s. case deref (NodeStyles m) s of
                  None \<Rightarrow> []
                | Some S \<Rightarrow> ''classDef '' @ NodeStyle_id S @ ''\<newline>''),
      EdgeStyle_String = (\<lambda>m s. []),
      Sprintf = (\<lambda>format operand. format),
      Node_renderGraph = (\<lambda>m n. []),
      Subgraph_renderGraph = (\<lambda>m s. []),
      Edge_String = (\<lambda>m e. []),
      Task_String = (\<lambda>m t. []),
      Section_String = (\<lambda>m s. [])\<rparr>"

text \<open>
  The memory after \<open>fc := NewFlowchart(); fc.NodeStyle("a"); fc.NodeStyle("b")\<close>, and
  after the first two of these calls.
\<close>

definition two_styles_mem :: mem where
  "two_styles_mem =
     snd (the (flow_calls 0 [OpNodeStyle ''a'', OpNodeStyle ''b''] (snd (NewFlowchart empty_mem))))"

definition one_style_mem :: mem where
  "one_style_mem =
     snd (the (flow_calls 0 [OpNodeStyle ''a''] (snd (NewFlowchart empty_mem))))"

section \<open>Example diagrams\<close>

text \<open>
  An instance of the methods of the entities, for the examples: a style renders as the
  keyword \<open>classDef\<close> and its identifier, a Node as its identifier, a Subgraph as an
  empty block, an Edge as an arrow between the identifiers of its Nodes, a Task as its
  identifier and a Section as its header line.
\<close>

definition example_methods :: methods where
  "example_methods =
     \<lparr>NodeStyle_String =
        (\<lambda>m s. case deref (NodeStyles m) s of
                  None \<Rightarrow> []
                | Some S \<Rightarrow> ''classDef '' @ NodeStyle_id S @ ''\<newline>''),
      EdgeStyle_String = (\<lambda>m s. []),
      Sprintf = (\<lambda>format operand. format),
      Node_renderGraph =
        (\<lambda>m n. case deref (Nodes m) n of None \<Rightarrow> [] | Some N \<Rightarrow> Node_id N @ ''\<newline>''),
      Subgraph_renderGraph =
        (\<lambda>m s. case deref (Subgraphs m) s of
                  None \<Rightarrow> []
                | Some S \<Rightarrow> ''subgraph '' @ Subgraph_id S @ ''\<newline>end\<newline>''),
      Edge_String =
        (\<lambda>m e. case deref (Edges m) e of
                  None \<Rightarrow> []
                | Some E \<Rightarrow>
                    (case (Edge_From E \<bind> deref (Nodes m), Edge_To E \<bind> deref (Nodes m)) of
                       (Some a, Some b) \<Rightarrow> Node_id a @ ''-->'' @ Node_id b @ ''\<newline>''
                     | _ \<Rightarrow> [])),
      Task_String =
        (\<lambda>m t. case deref (Tasks m) t of None \<Rightarrow> [] | Some T \<Rightarrow> Task_id T @ ''\<newline>''),
      Section_String =
        (\<lambda>m s. case deref (Sections m) s of
                  None \<Rightarrow> []
                | Some S \<Rightarrow> ''section '' @ Section_id S @ ''\<newline>'')\<rparr>"

text \<open>
  The memory after
  \<open>fc := NewFlowchart(); fc.NodeStyle("a"); n := fc.AddNode("A"); fc.NodeStyle("b");
  fc.AddSubgraph("S"); fc.AddEdge(n, n)\<close>,
  and the memory after
  \<open>g, _ := NewGantt("plan"); g.AddTask("b"); g.AddSection("s"); g.AddTask("a")\<close>.
\<close>

definition example_chart_mem :: mem where
  "example_chart_mem =
     snd (the (flow_calls 0
       [OpNodeStyle ''a'', OpAddNode ''A'', OpNodeStyle ''b'', OpAddSubgraph ''S'',
        OpAddEdge (Some 0) (Some 0)]
       (snd (NewFlowchart empty_mem))))"

definition example_gantt_mem :: mem where
  "example_gantt_mem =
     snd (the (gantt_calls (\<lambda>i init. True) 0
       [OpAddTask ''b'' [], OpAddSection ''s'', OpAddTask ''a'' ([] :: unit iface list)]
       (snd (NewGantt [StringVal ''plan'' :: unit iface] empty_mem))))"

section \<open>The export of a diagram as a URL\<close>





















chapter \<open>The properties\<close>

section \<open>Rendering an empty diagram\<close>

text \<open>
  C6: a freshly constructed Flowchart (no entities, no styles, no default edge style)
  renders to exactly \<open>graph TB\<close> and a line end, followed by two empty lines, whatever the
  memory it is created in, the methods of the entities and the order of the loop over
  the (empty) style map.
\<close>

theorem NewFlowchart_String:
  "Flowchart_String M ord (fst (NewFlowchart m)) (snd (NewFlowchart m))
     = Some ''graph TB\<newline>\<newline>\<newline>''"
  by (simp add: Flowchart_String_def NewFlowchart_def deref_def elems_def nil_slice_def
      range_values_def map_filter_def DirectionTopDown_def)

text \<open>
  C7: a Gantt diagram constructed with no initialiser (no title, no axisFormat, no tasks,
  no sections) is returned without an error and renders to exactly the line \<open>gantt\<close>
  followed by the line \<open>dateFormat YYYY-MM-DDTHH:mm:ssZ\<close>.
\<close>

theorem NewGantt_String:
  "fst (NewGantt [] m) = (Some (length (Gantts m)), None) \<and>
   Gantt_String M (length (Gantts m)) (snd (NewGantt [] m))
     = Some ''gantt\<newline>dateFormat YYYY-MM-DDTHH:mm:ssZ\<newline>''"
  by (simp add: NewGantt_def Gantt_String_def deref_def elems_def nil_slice_def)

section \<open>The constructor of Gantt rejects initialisers of the wrong type\<close>

text \<open>
  C8: when the value given for the Title (the first initialiser) is not a string, or the
  value given for the AxisFormat (the second) is neither an axisFormat nor a string,
  \<open>NewGantt\<close> returns an error and a nil pointer: no diagram is returned.
\<close>

theorem NewGantt_wrong_type:
  assumes "(0 < length init \<and> (\<forall>v. init ! 0 \<noteq> StringVal v)) \<or>
           (1 < length init \<and> (\<forall>v. init ! 1 \<noteq> StringVal v \<and> init ! 1 \<noteq> AxisFormatVal v))"
  shows "\<exists>e. fst (NewGantt init m) = (None, Some e)"
proof -
  have title: "\<exists>e. fst (NewGantt_Title init g m') = (None, Some e)"
    if "\<forall>v. init ! 0 \<noteq> StringVal v" for g m'
    using that by (cases "init ! 0") (simp_all add: NewGantt_Title_def)
  show ?thesis
  proof (cases "1 < length init")
    case long: True
    show ?thesis
    proof (cases "init ! 1")
      case (StringVal v)
      with assms long have "\<forall>v. init ! 0 \<noteq> StringVal v" by auto
      from title [OF this] StringVal long show ?thesis by (simp add: NewGantt_def Let_def)
    next
      case (AxisFormatVal v)
      with assms long have "\<forall>v. init ! 0 \<noteq> StringVal v" by auto
      from title [OF this] AxisFormatVal long show ?thesis by (simp add: NewGantt_def Let_def)
    next
      case (OtherVal x)
      with long show ?thesis by (simp add: NewGantt_def Let_def)
    qed
  next
    case short: False
    with assms have "0 < length init" and "\<forall>v. init ! 0 \<noteq> StringVal v" by auto
    from title [OF this(2)] this(1) short show ?thesis by (simp add: NewGantt_def Let_def)
  qed
qed

theorem NewGantt_wrong_type_witness:
  "(\<exists>e. fst (NewGantt [OtherVal (3::int)] empty_mem) = (None, Some e)) \<and>
   (\<exists>e. fst (NewGantt [StringVal ''plan'', OtherVal True] empty_mem) = (None, Some e)) \<and>
   (\<exists>e. fst (NewGantt [AxisFormatVal ''%H:%M'', StringVal ''%H:%M''] empty_mem) = (None, Some e))"
  using NewGantt_wrong_type [of "[OtherVal (3::int)]" empty_mem]
    NewGantt_wrong_type [of "[StringVal ''plan'', OtherVal True]" empty_mem]
    NewGantt_wrong_type [of "[AxisFormatVal ''%H:%M'', StringVal ''%H:%M'']" empty_mem]
  by simp

section \<open>Slices\<close>

lemma valid_nil_slice: "valid_slice arrs nil_slice"
  by (simp add: valid_slice_def nil_slice_def)

lemma elems_nil_slice: "elems arrs nil_slice = []"
  by (simp add: elems_def nil_slice_def)

lemma length_elems: "valid_slice arrs s \<Longrightarrow> length (elems arrs s) = len s"
  by (auto simp: valid_slice_def elems_def split: option.splits)

lemma append_slice_valid:
  assumes "valid_slice arrs s" and "append_slice g s x arrs = (s', arrs')"
  shows "valid_slice arrs' s'" and "elems arrs' s' = elems arrs s @ [x]"
    and "len s' = len s + 1" and "length arrs \<le> length arrs'"
    and "\<forall>a < length arrs. array s \<noteq> Some a \<longrightarrow> arrs' ! a = arrs ! a"
  using assms
  by (auto simp: valid_slice_def append_slice_def elems_def Let_def nth_append
      take_Suc_conv_app_nth split: option.splits if_splits)

section \<open>Adding an entity twice\<close>

lemma AddNode_dup:
  "fc < length (Flowcharts m) \<Longrightarrow> i \<in> dom (nodes (Flowcharts m ! fc)) \<Longrightarrow> AddNode fc i m = Some (None, m)"
  by (auto simp: AddNode_def deref_def)

lemma AddSubgraph_dup:
  "fc < length (Flowcharts m) \<Longrightarrow> i \<in> dom (subgraphs (Flowcharts m ! fc)) \<Longrightarrow> AddSubgraph fc i m = Some (None, m)"
  by (auto simp: AddSubgraph_def deref_def)

lemma flow_call_ids:
  assumes "fc < length (Flowcharts m)"
  shows "\<exists>r m'. flow_call fc c m = Some (r, m') \<and> length (Flowcharts m') = length (Flowcharts m) \<and>
           dom (nodes (Flowcharts m ! fc)) \<subseteq> dom (nodes (Flowcharts m' ! fc)) \<and>
           dom (subgraphs (Flowcharts m ! fc)) \<subseteq> dom (subgraphs (Flowcharts m' ! fc)) \<and>
           (\<forall>i. c = OpAddNode i \<longrightarrow> i \<in> dom (nodes (Flowcharts m' ! fc))) \<and>
           (\<forall>i. c = OpAddSubgraph i \<longrightarrow> i \<in> dom (subgraphs (Flowcharts m' ! fc)))"
  using assms
  by (cases c)
    (auto simp: AddNode_def AddSubgraph_def AddEdge_def Flowchart_NodeStyle_def Flowchart_EdgeStyle_def
      deref_def Let_def split: option.splits prod.splits)

lemma flow_calls_ids:
  assumes "fc < length (Flowcharts m)"
  shows "\<exists>rs m'. flow_calls fc cs m = Some (rs, m') \<and> length (Flowcharts m') = length (Flowcharts m) \<and>
           dom (nodes (Flowcharts m ! fc)) \<subseteq> dom (nodes (Flowcharts m' ! fc)) \<and>
           dom (subgraphs (Flowcharts m ! fc)) \<subseteq> dom (subgraphs (Flowcharts m' ! fc)) \<and>
           (\<forall>i. OpAddNode i \<in> set cs \<longrightarrow> i \<in> dom (nodes (Flowcharts m' ! fc))) \<and>
           (\<forall>i. OpAddSubgraph i \<in> set cs \<longrightarrow> i \<in> dom (subgraphs (Flowcharts m' ! fc)))"
  using assms
proof (induction cs arbitrary: m)
  case Nil
  then show ?case by simp
next
  case (Cons c cs)
  from flow_call_ids [OF Cons.prems, of c] obtain r m1 where
    c: "flow_call fc c m = Some (r, m1)" and l1: "length (Flowcharts m1) = length (Flowcharts m)"
    and n1: "dom (nodes (Flowcharts m ! fc)) \<subseteq> dom (nodes (Flowcharts m1 ! fc))"
    and s1: "dom (subgraphs (Flowcharts m ! fc)) \<subseteq> dom (subgraphs (Flowcharts m1 ! fc))"
    and an: "\<forall>i. c = OpAddNode i \<longrightarrow> i \<in> dom (nodes (Flowcharts m1 ! fc))"
    and as: "\<forall>i. c = OpAddSubgraph i \<longrightarrow> i \<in> dom (subgraphs (Flowcharts m1 ! fc))"
    by blast
  from Cons.prems l1 have "fc < length (Flowcharts m1)" by simp
  from Cons.IH [OF this] obtain rs m2 where
    cs: "flow_calls fc cs m1 = Some (rs, m2)" and l2: "length (Flowcharts m2) = length (Flowcharts m1)"
    and n2: "dom (nodes (Flowcharts m1 ! fc)) \<subseteq> dom (nodes (Flowcharts m2 ! fc))"
    and s2: "dom (subgraphs (Flowcharts m1 ! fc)) \<subseteq> dom (subgraphs (Flowcharts m2 ! fc))"
    and bn: "\<forall>i. OpAddNode i \<in> set cs \<longrightarrow> i \<in> dom (nodes (Flowcharts m2 ! fc))"
    and bs: "\<forall>i. OpAddSubgraph i \<in> set cs \<longrightarrow> i \<in> dom (subgraphs (Flowcharts m2 ! fc))"
    by blast
  have "flow_calls fc (c # cs) m = Some (r # rs, m2)" using c cs by simp
  moreover have "length (Flowcharts m2) = length (Flowcharts m)" using l1 l2 by simp
  moreover have "dom (nodes (Flowcharts m ! fc)) \<subseteq> dom (nodes (Flowcharts m2 ! fc))" using n1 n2 by blast
  moreover have "dom (subgraphs (Flowcharts m ! fc)) \<subseteq> dom (subgraphs (Flowcharts m2 ! fc))" using s1 s2 by blast
  moreover have "\<forall>i. OpAddNode i \<in> set (c # cs) \<longrightarrow> i \<in> dom (nodes (Flowcharts m2 ! fc))"
    using an bn n2 by (auto simp: subset_iff)
  moreover have "\<forall>i. OpAddSubgraph i \<in> set (c # cs) \<longrightarrow> i \<in> dom (subgraphs (Flowcharts m2 ! fc))"
    using as bs s2 by (auto simp: subset_iff)
  ultimately show ?case by blast
qed

text \<open>
  C3: a client makes any list of calls on a Flowchart that is in memory. No call panics,
  and afterwards \<open>AddNode\<close> with an identifier that a call of \<open>AddNode\<close> in the list was
  given, and \<open>AddSubgraph\<close> with an identifier that a call of \<open>AddSubgraph\<close> in the list
  was given, return nil and leave the whole memory as it is: the tables, the number of
  entities and the list of items to render.
\<close>

theorem duplicate_add_is_noop:
  assumes "fc < length (Flowcharts m0)"
  shows "\<exists>rs m. flow_calls fc cs m0 = Some (rs, m) \<and>
           (\<forall>i. OpAddNode i \<in> set cs \<longrightarrow> AddNode fc i m = Some (None, m)) \<and>
           (\<forall>i. OpAddSubgraph i \<in> set cs \<longrightarrow> AddSubgraph fc i m = Some (None, m))"
proof -
  from flow_calls_ids [OF assms, of cs] obtain rs m where
    run: "flow_calls fc cs m0 = Some (rs, m)" and l: "length (Flowcharts m) = length (Flowcharts m0)"
    and n: "\<forall>i. OpAddNode i \<in> set cs \<longrightarrow> i \<in> dom (nodes (Flowcharts m ! fc))"
    and s: "\<forall>i. OpAddSubgraph i \<in> set cs \<longrightarrow> i \<in> dom (subgraphs (Flowcharts m ! fc))"
    by blast
  from assms l have live: "fc < length (Flowcharts m)" by simp
  show ?thesis using run n s AddNode_dup [OF live] AddSubgraph_dup [OF live] by blast
qed

theorem duplicate_add_is_noop_witness:
  "0 < length (Flowcharts (snd (NewFlowchart empty_mem))) \<and>
   (\<exists>rs m. flow_calls 0 [OpAddNode ''A'', OpAddSubgraph ''S'', OpAddNode ''B'']
              (snd (NewFlowchart empty_mem)) = Some (rs, m) \<and>
            AddNode 0 ''A'' m = Some (None, m) \<and> AddNode 0 ''B'' m = Some (None, m) \<and>
            AddSubgraph 0 ''S'' m = Some (None, m))"
proof -
  have live: "0 < length (Flowcharts (snd (NewFlowchart empty_mem)))"
    by (simp add: NewFlowchart_def empty_mem_def)
  from duplicate_add_is_noop [OF live, of "[OpAddNode ''A'', OpAddSubgraph ''S'', OpAddNode ''B'']"]
  show ?thesis using live by auto
qed

section \<open>The order of the edges\<close>

lemma make_copy:
  assumes "valid_slice arrs src" and "make_slice (len src) (len src) arrs = (d, arrs1)"
  shows "elems (copy_slice d src arrs1) d = elems arrs src"
    and "take (length arrs) (copy_slice d src arrs1) = arrs"
    and "array d = Some (length arrs)" and "len d = len src"
    and "length (copy_slice d src arrs1) = Suc (length arrs)"
  using assms
  by (auto simp: valid_slice_def make_slice_def copy_slice_def elems_def nth_append Let_def
      split: option.splits)

lemma AddEdge_inv:
  assumes "edges_inv fc m es"
  shows "\<exists>e m'. AddEdge fc a b m = Some (Some e, m') \<and> edges_inv fc m' (es @ [e])"
proof -
  let ?f = "Flowcharts m ! fc"
  obtain s' arrs' where ap: "append_slice (growslice m) (edges ?f) (Some (length (Edges m))) (ptr_arrays m) = (s', arrs')"
    by (cases "append_slice (growslice m) (edges ?f) (Some (length (Edges m))) (ptr_arrays m)")
  from assms have live: "fc < length (Flowcharts m)" and v: "valid_slice (ptr_arrays m) (edges ?f)"
    and el: "elems (ptr_arrays m) (edges ?f) = map Some es"
    and ids: "\<forall>n < length es. es ! n < length (Edges m) \<and> Edge_id (Edges m ! (es ! n)) = int n"
    by (simp_all add: edges_inv_def)
  note A = append_slice_valid [OF v ap]
  from length_elems [OF v] el have n: "len (edges ?f) = length es" by simp
  let ?m' = "m\<lparr>Edges := Edges m @ [\<lparr>Edge_From = a, Edge_To = b, Edge_Shape = EShapeArrow,
                               Edge_id = int (len s') - 1\<rparr>],
         ptr_arrays := arrs',
         Flowcharts := (Flowcharts m)[fc := ?f\<lparr>edges := s'\<rparr>]\<rparr>"
  have call: "AddEdge fc a b m = Some (Some (length (Edges m)), ?m')"
    using live ap by (simp add: AddEdge_def deref_def Let_def)
  have "edges_inv fc ?m' (es @ [length (Edges m)])"
    unfolding edges_inv_def
  proof (intro conjI allI impI)
    show "fc < length (Flowcharts ?m')" using live by simp
    show "valid_slice (ptr_arrays ?m') (edges (Flowcharts ?m' ! fc))" using live A(1) by simp
    show "elems (ptr_arrays ?m') (edges (Flowcharts ?m' ! fc)) = map Some (es @ [length (Edges m)])"
      using live A(2) el by simp
  next
    fix k assume "k < length (es @ [length (Edges m)])"
    then consider "k < length es" | "k = length es" by fastforce
    then show "(es @ [length (Edges m)]) ! k < length (Edges ?m')"
      using ids by cases (auto simp: nth_append less_Suc_eq)
  next
    fix k assume "k < length (es @ [length (Edges m)])"
    then consider "k < length es" | "k = length es" by fastforce
    then show "Edge_id (Edges ?m' ! ((es @ [length (Edges m)]) ! k)) = int k"
      using ids A(3) n by cases (auto simp: nth_append)
  qed
  with call show ?thesis by blast
qed

lemma other_call_inv:
  assumes "edges_inv fc m es" and "\<forall>a b. c \<noteq> OpAddEdge a b"
  shows "\<exists>r m'. flow_call fc c m = Some (r, m') \<and> edges_inv fc m' es"
  using assms
  by (cases c)
    (auto simp: edges_inv_def AddNode_def AddSubgraph_def Flowchart_NodeStyle_def
      Flowchart_EdgeStyle_def deref_def Let_def split: option.splits prod.splits)

lemma flow_calls_edges:
  assumes "edges_inv fc m es"
  shows "\<exists>rs m' ps. flow_calls fc cs m = Some (rs, m') \<and> edge_results cs rs = map Some ps \<and>
           edges_inv fc m' (es @ ps)"
  using assms
proof (induction cs arbitrary: m es)
  case Nil
  then show ?case by simp
next
  case (Cons c cs)
  show ?case
  proof (cases "\<exists>a b. c = OpAddEdge a b")
    case True
    then obtain a b where c: "c = OpAddEdge a b" by blast
    from AddEdge_inv [OF Cons.prems, of a b] obtain e m1 where
      1: "AddEdge fc a b m = Some (Some e, m1)" and i1: "edges_inv fc m1 (es @ [e])" by blast
    from Cons.IH [OF i1] obtain rs m2 ps where
      2: "flow_calls fc cs m1 = Some (rs, m2)" and r: "edge_results cs rs = map Some ps"
      and i2: "edges_inv fc m2 ((es @ [e]) @ ps)" by blast
    have "flow_calls fc (c # cs) m = Some (Some e # rs, m2)" using c 1 2 by simp
    moreover have "edge_results (c # cs) (Some e # rs) = map Some (e # ps)" using c r by simp
    moreover have "edges_inv fc m2 (es @ (e # ps))" using i2 by simp
    ultimately show ?thesis by blast
  next
    case False
    then have nc: "\<forall>a b. c \<noteq> OpAddEdge a b" by blast
    from other_call_inv [OF Cons.prems nc] obtain r m1 where
      1: "flow_call fc c m = Some (r, m1)" and i1: "edges_inv fc m1 es" by blast
    from Cons.IH [OF i1] obtain rs m2 ps where
      2: "flow_calls fc cs m1 = Some (rs, m2)" and r: "edge_results cs rs = map Some ps"
      and i2: "edges_inv fc m2 (es @ ps)" by blast
    have "flow_calls fc (c # cs) m = Some (r # rs, m2)" using 1 2 by simp
    moreover have "edge_results (c # cs) (r # rs) = map Some ps" using nc r by (cases c) simp_all
    ultimately show ?thesis using i2 by blast
  qed
qed

lemma edges_inv_NewFlowchart: "edges_inv (fst (NewFlowchart m0)) (snd (NewFlowchart m0)) []"
  by (simp add: edges_inv_def NewFlowchart_def valid_nil_slice elems_nil_slice)

lemma edges_inv_GetEdge:
  assumes "edges_inv fc m es" and "n < length es"
  shows "GetEdge fc (int n) m = Some (Some (es ! n))"
proof -
  from assms(1) have live: "fc < length (Flowcharts m)"
    and v: "valid_slice (ptr_arrays m) (edges (Flowcharts m ! fc))"
    and el: "elems (ptr_arrays m) (edges (Flowcharts m ! fc)) = map Some es"
    by (simp_all add: edges_inv_def)
  from length_elems [OF v] el have "len (edges (Flowcharts m ! fc)) = length es" by simp
  with live el assms(2) show ?thesis by (simp add: GetEdge_def deref_def slice_index_def)
qed

lemma edges_inv_ListEdges:
  assumes "edges_inv fc m es"
  shows "\<exists>sl m'. ListEdges fc m = Some (sl, m') \<and> elems (ptr_arrays m') sl = map Some es"
proof -
  let ?src = "edges (Flowcharts m ! fc)"
  from assms have live: "fc < length (Flowcharts m)"
    and v: "valid_slice (ptr_arrays m) ?src"
    and el: "elems (ptr_arrays m) ?src = map Some es"
    by (simp_all add: edges_inv_def)
  obtain d arrs1 where mk: "make_slice (len ?src) (len ?src) (ptr_arrays m) = (d, arrs1)"
    by (cases "make_slice (len ?src) (len ?src) (ptr_arrays m) :: slice \<times> addr option list list")
  from make_copy(1) [OF v mk] el live mk show ?thesis
    by (simp add: ListEdges_def deref_def)
qed

text \<open>
  C4: a Flowchart is created by \<open>NewFlowchart\<close> (in any memory) and a client makes any
  list of calls on it. Then no call panics; every \<open>AddEdge\<close> returned an edge; the edge
  returned by the \<open>n\<close>-th call of \<open>AddEdge\<close> (from 0) holds \<open>n\<close> as its \<open>id\<close> at the end
  of the list, whatever calls followed it; \<open>GetEdge(n)\<close> returns that edge; and
  \<open>ListEdges\<close> returns a slice whose elements are the edges in the order of the calls.
\<close>

theorem edge_index_is_call_order:
  "\<exists>rs m es. flow_calls (fst (NewFlowchart m0)) cs (snd (NewFlowchart m0)) = Some (rs, m) \<and>
           edge_results cs rs = map Some es \<and>
           (\<forall>n < length es. map_option Edge_id (deref (Edges m) (es ! n)) = Some (int n) \<and>
                             GetEdge (fst (NewFlowchart m0)) (int n) m = Some (Some (es ! n))) \<and>
           (\<exists>sl m'. ListEdges (fst (NewFlowchart m0)) m = Some (sl, m') \<and>
                     elems (ptr_arrays m') sl = map Some es)"
proof -
  let ?fc = "fst (NewFlowchart m0)"
  from flow_calls_edges [OF edges_inv_NewFlowchart, of m0 cs] obtain rs m es where
    run: "flow_calls ?fc cs (snd (NewFlowchart m0)) = Some (rs, m)"
    and res: "edge_results cs rs = map Some es" and inv: "edges_inv ?fc m es"
    by auto
  have "\<forall>n < length es. map_option Edge_id (deref (Edges m) (es ! n)) = Some (int n) \<and>
                             GetEdge ?fc (int n) m = Some (Some (es ! n))"
    using inv edges_inv_GetEdge [OF inv] by (simp add: edges_inv_def deref_def)
  with run res edges_inv_ListEdges [OF inv] show ?thesis by blast
qed

theorem edge_index_is_call_order_witness:
  "\<exists>rs m. flow_calls 0 [OpAddNode ''A'', OpAddEdge (Some 0) (Some 0), OpAddSubgraph ''S'',
                         OpAddEdge (Some 0) (Some 0)] (snd (NewFlowchart empty_mem)) = Some (rs, m) \<and>
          rs = [Some 0, Some 0, Some 0, Some 1] \<and>
          map_option Edge_id (deref (Edges m) 1) = Some 1 \<and>
          GetEdge 0 1 m = Some (Some 1) \<and>
          (\<exists>sl m'. ListEdges 0 m = Some (sl, m') \<and> elems (ptr_arrays m') sl = [Some 0, Some 1])"
proof -
  let ?cs = "[OpAddNode ''A'', OpAddEdge (Some 0) (Some 0), OpAddSubgraph ''S'',
              OpAddEdge (Some 0) (Some 0)]"
  have fc: "fst (NewFlowchart empty_mem) = 0"
    by (simp add: NewFlowchart_def empty_mem_def)
  from edge_index_is_call_order [of empty_mem ?cs] obtain rs m es where
    run: "flow_calls 0 ?cs (snd (NewFlowchart empty_mem)) = Some (rs, m)"
    and res: "edge_results ?cs rs = map Some es"
    and ids: "\<forall>n < length es. map_option Edge_id (deref (Edges m) (es ! n)) = Some (int n) \<and>
                             GetEdge 0 (int n) m = Some (Some (es ! n))"
    and ls: "\<exists>sl m'. ListEdges 0 m = Some (sl, m') \<and> elems (ptr_arrays m') sl = map Some es"
    unfolding fc by blast
  have rs: "rs = [Some 0, Some 0, Some 0, Some 1]"
    using run
    by (simp add: NewFlowchart_def empty_mem_def AddNode_def AddSubgraph_def AddEdge_def
        deref_def append_slice_def nil_slice_def elems_def Let_def split: prod.splits option.splits)
  with res have es: "es = [0, 1]" by (cases es) auto
  from ids es have "map_option Edge_id (deref (Edges m) 1) = Some 1 \<and> GetEdge 0 1 m = Some (Some 1)"
    by (simp add: less_Suc_eq all_conj_distrib)
  with run rs ls es show ?thesis by simp
qed

section \<open>The list operations return copies\<close>

lemma append_slice_fresh:
  assumes "fresh_slice n s" and "n \<le> length arrs" and "append_slice g s x arrs = (s', arrs')"
  shows "fresh_slice n s'" and "n \<le> length arrs'" and "take n arrs' = take n arrs"
  using assms
  by (auto simp: fresh_slice_def append_slice_def Let_def take_update_cancel
      split: option.splits if_splits)

lemma slice_set_fresh:
  assumes "fresh_slice n s" and "slice_set s i v arrs = Some arrs'"
  shows "length arrs' = length arrs" and "take n arrs' = take n arrs"
  using assms
  by (auto simp: fresh_slice_def slice_set_def take_update_cancel split: option.splits if_splits)

lemma slice_writes_fresh:
  assumes "fresh_slice n s" and "n \<le> length arrs" and "slice_writes g ws s arrs = Some (s', arrs')"
  shows "take n arrs' = take n arrs"
  using assms
proof (induction ws arbitrary: s arrs)
  case Nil
  then show ?case by simp
next
  case (Cons w ws)
  show ?case
  proof (cases w)
    case (SetIndex i v)
    with Cons.prems obtain arrs1 where 1: "slice_set s i v arrs = Some arrs1"
      and 2: "slice_writes g ws s arrs1 = Some (s', arrs')"
      by (auto split: Option.bind_splits)
    from slice_set_fresh [OF Cons.prems(1) 1] Cons.prems(2)
    have "n \<le> length arrs1" and "take n arrs1 = take n arrs" by simp_all
    with Cons.IH [OF Cons.prems(1) _ 2] show ?thesis by simp
  next
    case (Append v)
    obtain s1 arrs1 where 1: "append_slice g s v arrs = (s1, arrs1)"
      by (cases "append_slice g s v arrs")
    with Cons.prems Append have 2: "slice_writes g ws s1 arrs1 = Some (s', arrs')" by simp
    from append_slice_fresh [OF Cons.prems(1,2) 1] Cons.IH [OF _ _ 2] show ?thesis by simp
  qed
qed

lemma elems_take:
  assumes "valid_slice arrs s" and "take (length arrs) arrs' = arrs"
  shows "elems arrs' s = elems arrs s"
proof (cases "array s")
  case None
  then show ?thesis by (simp add: elems_def)
next
  case (Some a)
  with assms(1) have "a < length arrs" by (simp add: valid_slice_def)
  then have "arrs ! a = take (length arrs) arrs' ! a" using assms(2) by simp
  also have "\<dots> = arrs' ! a" using \<open>a < length arrs\<close> by simp
  finally show ?thesis using Some by (simp add: elems_def)
qed

lemma foldl_append_slice:
  assumes "valid_slice arrs s" and "fresh_slice n s" and "n \<le> length arrs"
    and "foldl (\<lambda>(vs, arrs) v. append_slice g vs (Some v) arrs) (s, arrs) xs = (s', arrs')"
  shows "valid_slice arrs' s' \<and> elems arrs' s' = elems arrs s @ map Some xs \<and>
         take n arrs' = take n arrs \<and> fresh_slice n s' \<and> n \<le> length arrs'"
  using assms
proof (induction xs arbitrary: s arrs)
  case Nil
  then show ?case by simp
next
  case (Cons x xs)
  obtain s1 arrs1 where 1: "append_slice g s (Some x) arrs = (s1, arrs1)"
    by (cases "append_slice g s (Some x) arrs")
  with Cons.prems(4) have 2:
    "foldl (\<lambda>(vs, arrs) v. append_slice g vs (Some v) arrs) (s1, arrs1) xs = (s', arrs')" by simp
  note A = append_slice_valid [OF Cons.prems(1) 1]
  note F = append_slice_fresh [OF Cons.prems(2,3) 1]
  from Cons.IH [OF A(1) F(1) F(2) 2] A(2) F(3) show ?case by simp
qed

lemma make_slice_fresh:
  assumes "make_slice k c arrs = (s, arrs')"
  shows "valid_slice arrs' s \<longleftrightarrow> k \<le> c" and "fresh_slice (length arrs) s"
    and "take (length arrs) arrs' = arrs" and "length arrs \<le> length arrs'"
    and "k = 0 \<Longrightarrow> elems arrs' s = []"
  using assms by (auto simp: make_slice_def valid_slice_def fresh_slice_def elems_def)

lemma list_from_map:
  fixes m :: mem
  assumes "(vs, arrs) =
       foldl (\<lambda>(vs, arrs) v. append_slice (growslice m) vs (Some v) arrs)
         (make_slice 0 k (ptr_arrays m)) xs"
  shows "fresh_slice (length (ptr_arrays m)) vs \<and> length (ptr_arrays m) \<le> length arrs \<and>
         take (length (ptr_arrays m)) arrs = ptr_arrays m \<and> elems arrs vs = map Some xs \<and>
         valid_slice arrs vs"
proof -
  obtain s0 arrs0 where mk: "make_slice 0 k (ptr_arrays m) = (s0, arrs0 :: addr option list list)"
    by (cases "make_slice 0 k (ptr_arrays m) :: slice \<times> addr option list list")
  note M = make_slice_fresh [OF mk]
  from M(1) have v: "valid_slice arrs0 s0" by simp
  from assms mk have f: "foldl (\<lambda>(vs, arrs) v. append_slice (growslice m) vs (Some v) arrs) (s0, arrs0) xs
      = (vs, arrs)" by simp
  from foldl_append_slice [OF v M(2) M(4) f] M(3) M(5) show ?thesis by simp
qed

lemma ListEdges_copy:
  assumes live: "fc < length (Flowcharts m)" and v: "valid_slice (ptr_arrays m) (edges (Flowcharts m ! fc))"
  shows "\<exists>sl m1. ListEdges fc m = Some (sl, m1) \<and> fresh_slice (length (ptr_arrays m)) sl \<and>
           length (ptr_arrays m) \<le> length (ptr_arrays m1) \<and>
           m1\<lparr>ptr_arrays := take (length (ptr_arrays m)) (ptr_arrays m1)\<rparr> = m \<and>
           elems (ptr_arrays m) (edges (Flowcharts m ! fc)) = elems (ptr_arrays m1) sl"
proof -
  let ?src = "edges (Flowcharts m ! fc)"
  obtain d arrs1 where mk: "make_slice (len ?src) (len ?src) (ptr_arrays m) = (d, arrs1)"
    by (cases "make_slice (len ?src) (len ?src) (ptr_arrays m) :: slice \<times> addr option list list")
  note C = make_copy [OF v mk]
  have call: "ListEdges fc m = Some (d, m\<lparr>ptr_arrays := copy_slice d ?src arrs1\<rparr>)"
    using live mk by (simp add: ListEdges_def deref_def)
  have "fresh_slice (length (ptr_arrays m)) d" using C(3) by (simp add: fresh_slice_def)
  with call C(1,2,5) show ?thesis by simp
qed

lemma ListSections_copy:
  assumes live: "g < length (Gantts m)" and v: "valid_slice (ptr_arrays m) (sections (Gantts m ! g))"
  shows "\<exists>sl m1. ListSections g m = Some (sl, m1) \<and> fresh_slice (length (ptr_arrays m)) sl \<and>
           length (ptr_arrays m) \<le> length (ptr_arrays m1) \<and>
           m1\<lparr>ptr_arrays := take (length (ptr_arrays m)) (ptr_arrays m1)\<rparr> = m \<and>
           elems (ptr_arrays m) (sections (Gantts m ! g)) = elems (ptr_arrays m1) sl"
proof -
  let ?src = "sections (Gantts m ! g)"
  obtain d arrs1 where mk: "make_slice (len ?src) (len ?src) (ptr_arrays m) = (d, arrs1)"
    by (cases "make_slice (len ?src) (len ?src) (ptr_arrays m) :: slice \<times> addr option list list")
  note C = make_copy [OF v mk]
  have call: "ListSections g m = Some (d, m\<lparr>ptr_arrays := copy_slice d ?src arrs1\<rparr>)"
    using live mk by (simp add: ListSections_def deref_def)
  have "fresh_slice (length (ptr_arrays m)) d" using C(3) by (simp add: fresh_slice_def)
  with call C(1,2,5) show ?thesis by simp
qed

lemma ListLocalTasks_copy:
  assumes live: "g < length (Gantts m)" and v: "valid_slice (ptr_arrays m) (tasks (Gantts m ! g))"
  shows "\<exists>sl m1. ListLocalTasks g m = Some (sl, m1) \<and> fresh_slice (length (ptr_arrays m)) sl \<and>
           length (ptr_arrays m) \<le> length (ptr_arrays m1) \<and>
           m1\<lparr>ptr_arrays := take (length (ptr_arrays m)) (ptr_arrays m1)\<rparr> = m \<and>
           elems (ptr_arrays m) (tasks (Gantts m ! g)) = elems (ptr_arrays m1) sl"
proof -
  let ?src = "tasks (Gantts m ! g)"
  obtain d arrs1 where mk: "make_slice (len ?src) (len ?src) (ptr_arrays m) = (d, arrs1)"
    by (cases "make_slice (len ?src) (len ?src) (ptr_arrays m) :: slice \<times> addr option list list")
  note C = make_copy [OF v mk]
  have call: "ListLocalTasks g m = Some (d, m\<lparr>ptr_arrays := copy_slice d ?src arrs1\<rparr>)"
    using live mk by (simp add: ListLocalTasks_def deref_def)
  have "fresh_slice (length (ptr_arrays m)) d" using C(3) by (simp add: fresh_slice_def)
  with call C(1,2,5) show ?thesis by simp
qed

lemma ListNodes_copy:
  assumes live: "fc < length (Flowcharts m)"
  shows "\<exists>sl m1. ListNodes ord fc m = Some (sl, m1) \<and> fresh_slice (length (ptr_arrays m)) sl \<and>
           length (ptr_arrays m) \<le> length (ptr_arrays m1) \<and>
           m1\<lparr>ptr_arrays := take (length (ptr_arrays m)) (ptr_arrays m1)\<rparr> = m \<and>
           map Some (range_values (nodes (Flowcharts m ! fc)) ord) = elems (ptr_arrays m1) sl"
proof -
  obtain vs arrs where f: "(vs, arrs) =
       foldl (\<lambda>(vs, arrs) v. append_slice (growslice m) vs (Some v) arrs)
         (make_slice 0 (length ord) (ptr_arrays m)) (range_values (nodes (Flowcharts m ! fc)) ord)"
    by (metis surj_pair)
  note L = list_from_map [OF f]
  have call: "ListNodes ord fc m = Some (vs, m\<lparr>ptr_arrays := arrs\<rparr>)"
    using live f [symmetric] by (simp add: ListNodes_def deref_def)
  from call L show ?thesis by simp
qed

lemma ListSubgraphs_copy:
  assumes live: "fc < length (Flowcharts m)"
  shows "\<exists>sl m1. ListSubgraphs ord fc m = Some (sl, m1) \<and> fresh_slice (length (ptr_arrays m)) sl \<and>
           length (ptr_arrays m) \<le> length (ptr_arrays m1) \<and>
           m1\<lparr>ptr_arrays := take (length (ptr_arrays m)) (ptr_arrays m1)\<rparr> = m \<and>
           map Some (range_values (subgraphs (Flowcharts m ! fc)) ord) = elems (ptr_arrays m1) sl"
proof -
  obtain vs arrs where f: "(vs, arrs) =
       foldl (\<lambda>(vs, arrs) v. append_slice (growslice m) vs (Some v) arrs)
         (make_slice 0 (length ord) (ptr_arrays m)) (range_values (subgraphs (Flowcharts m ! fc)) ord)"
    by (metis surj_pair)
  note L = list_from_map [OF f]
  have call: "ListSubgraphs ord fc m = Some (vs, m\<lparr>ptr_arrays := arrs\<rparr>)"
    using live f [symmetric] by (simp add: ListSubgraphs_def deref_def)
  from call L show ?thesis by simp
qed

lemma list_call_copy:
  assumes "list_ok lop m"
  shows "\<exists>sl m1. list_call lop m = Some (sl, m1) \<and> fresh_slice (length (ptr_arrays m)) sl \<and>
           length (ptr_arrays m) \<le> length (ptr_arrays m1) \<and>
           m1\<lparr>ptr_arrays := take (length (ptr_arrays m)) (ptr_arrays m1)\<rparr> = m \<and>
           listed lop m = Some (elems (ptr_arrays m1) sl)"
proof (cases lop)
  case (OpListEdges fc)
  with assms ListEdges_copy [of fc m] show ?thesis by (simp add: deref_def)
next
  case (OpListNodes ord fc)
  with assms ListNodes_copy [of fc m ord] show ?thesis by (simp add: deref_def)
next
  case (OpListSubgraphs ord fc)
  with assms ListSubgraphs_copy [of fc m ord] show ?thesis by (simp add: deref_def)
next
  case (OpListSections g)
  with assms ListSections_copy [of g m] show ?thesis by (simp add: deref_def)
next
  case (OpListLocalTasks g)
  with assms ListLocalTasks_copy [of g m] show ?thesis by (simp add: deref_def)
qed

text \<open>
  C10: each of \<open>ListEdges\<close>, \<open>ListNodes\<close>, \<open>ListSubgraphs\<close>, \<open>ListSections\<close> and
  \<open>ListLocalTasks\<close>, called on a diagram that is in memory, returns a slice whose backing
  array did not exist before the call and whose elements are those of the diagram's own
  storage; the call changes nothing but the store of arrays, where it leaves every array
  that existed as it was. After any list of assignments and appends through the slice
  returned, the memory without the new arrays is still the memory before the call: every
  table, every entity, and the elements of every slice that was well formed before (the
  diagram's edges, items, sections and tasks among them).
\<close>

theorem list_returns_fresh_copy:
  assumes "list_ok lop m"
  shows "\<exists>sl m1. list_call lop m = Some (sl, m1) \<and>
           fresh_slice (length (ptr_arrays m)) sl \<and>
           listed lop m = Some (elems (ptr_arrays m1) sl) \<and>
           m1\<lparr>ptr_arrays := take (length (ptr_arrays m)) (ptr_arrays m1)\<rparr> = m \<and>
           (\<forall>ws sl' arrs'. slice_writes (growslice m1) ws sl (ptr_arrays m1) = Some (sl', arrs') \<longrightarrow>
              m1\<lparr>ptr_arrays := take (length (ptr_arrays m)) arrs'\<rparr> = m \<and>
              (\<forall>s. valid_slice (ptr_arrays m) s \<longrightarrow> elems arrs' s = elems (ptr_arrays m) s))"
proof -
  from list_call_copy [OF assms] obtain sl m1 where
    call: "list_call lop m = Some (sl, m1)" and fr: "fresh_slice (length (ptr_arrays m)) sl"
    and le: "length (ptr_arrays m) \<le> length (ptr_arrays m1)"
    and same: "m1\<lparr>ptr_arrays := take (length (ptr_arrays m)) (ptr_arrays m1)\<rparr> = m"
    and cp: "listed lop m = Some (elems (ptr_arrays m1) sl)"
    by blast
  have "ptr_arrays (m1\<lparr>ptr_arrays := take (length (ptr_arrays m)) (ptr_arrays m1)\<rparr>) = ptr_arrays m"
    by (simp only: same)
  then have old: "take (length (ptr_arrays m)) (ptr_arrays m1) = ptr_arrays m"
    by simp
  have frame: "m1\<lparr>ptr_arrays := take (length (ptr_arrays m)) arrs'\<rparr> = m \<and>
        (\<forall>s. valid_slice (ptr_arrays m) s \<longrightarrow> elems arrs' s = elems (ptr_arrays m) s)"
    if w: "slice_writes (growslice m1) ws sl (ptr_arrays m1) = Some (sl', arrs')" for ws sl' arrs'
  proof
    from slice_writes_fresh [OF fr le w]
    have t: "take (length (ptr_arrays m)) arrs' = take (length (ptr_arrays m)) (ptr_arrays m1)" .
    show "m1\<lparr>ptr_arrays := take (length (ptr_arrays m)) arrs'\<rparr> = m"
      by (simp only: t same)
    from t old have "take (length (ptr_arrays m)) arrs' = ptr_arrays m" by (simp only:)
    then show "\<forall>s. valid_slice (ptr_arrays m) s \<longrightarrow> elems arrs' s = elems (ptr_arrays m) s"
      using elems_take by blast
  qed
  show ?thesis
  proof (intro exI conjI allI impI)
    show "list_call lop m = Some (sl, m1)" by (rule call)
    show "fresh_slice (length (ptr_arrays m)) sl" by (rule fr)
    show "listed lop m = Some (elems (ptr_arrays m1) sl)" by (rule cp)
    show "m1\<lparr>ptr_arrays := take (length (ptr_arrays m)) (ptr_arrays m1)\<rparr> = m" by (rule same)
  next
    fix ws sl' arrs'
    assume "slice_writes (growslice m1) ws sl (ptr_arrays m1) = Some (sl', arrs')"
    from frame [OF this]
    show "m1\<lparr>ptr_arrays := take (length (ptr_arrays m)) arrs'\<rparr> = m" ..
  next
    fix ws sl' arrs' s
    assume "slice_writes (growslice m1) ws sl (ptr_arrays m1) = Some (sl', arrs')"
      and "valid_slice (ptr_arrays m) s"
    with frame show "elems arrs' s = elems (ptr_arrays m) s" by blast
  qed
qed

theorem list_returns_fresh_copy_witness:
  "\<exists>m sl m1 sl' arrs'.
     AddEdge 0 None None (snd (NewFlowchart empty_mem)) = Some (Some 0, m) \<and>
     list_ok (OpListEdges 0) m \<and>
     list_call (OpListEdges 0) m = Some (sl, m1) \<and>
     slice_writes (growslice m1) [SetIndex 0 None, Append (Some 7)] sl (ptr_arrays m1) = Some (sl', arrs') \<and>
     elems arrs' sl' = [None, Some 7] \<and>
     elems arrs' (edges (Flowcharts m ! 0)) = [Some 0] \<and>
     m1\<lparr>ptr_arrays := take (length (ptr_arrays m)) arrs'\<rparr> = m"
proof -
  let ?m = "snd (the (AddEdge 0 None None (snd (NewFlowchart empty_mem))))"
  have add: "AddEdge 0 None None (snd (NewFlowchart empty_mem)) = Some (Some 0, ?m)"
    by (simp add: NewFlowchart_def empty_mem_def AddEdge_def deref_def append_slice_def
        nil_slice_def elems_def Let_def)
  have ok: "list_ok (OpListEdges 0) ?m"
    by (simp add: NewFlowchart_def empty_mem_def AddEdge_def deref_def append_slice_def
        nil_slice_def elems_def Let_def valid_slice_def)
  have src: "valid_slice (ptr_arrays ?m) (edges (Flowcharts ?m ! 0))"
    and el: "elems (ptr_arrays ?m) (edges (Flowcharts ?m ! 0)) = [Some 0]"
    by (simp_all add: NewFlowchart_def empty_mem_def AddEdge_def deref_def append_slice_def
        nil_slice_def elems_def Let_def valid_slice_def)
  from list_returns_fresh_copy [OF ok] obtain sl m1 where
    call: "list_call (OpListEdges 0) ?m = Some (sl, m1)"
    and frame: "\<forall>ws sl' arrs'. slice_writes (growslice m1) ws sl (ptr_arrays m1) = Some (sl', arrs') \<longrightarrow>
              m1\<lparr>ptr_arrays := take (length (ptr_arrays ?m)) arrs'\<rparr> = ?m \<and>
              (\<forall>s. valid_slice (ptr_arrays ?m) s \<longrightarrow> elems arrs' s = elems (ptr_arrays ?m) s)"
    by blast
  have w: "\<exists>sl' arrs'. slice_writes (growslice m1) [SetIndex 0 None, Append (Some 7)] sl (ptr_arrays m1)
      = Some (sl', arrs') \<and> elems arrs' sl' = [None, Some 7]"
    using call
    by (auto simp: NewFlowchart_def empty_mem_def AddEdge_def deref_def append_slice_def
        nil_slice_def elems_def Let_def ListEdges_def make_slice_def copy_slice_def slice_set_def)
  then obtain sl' arrs' where
    w1: "slice_writes (growslice m1) [SetIndex 0 None, Append (Some 7)] sl (ptr_arrays m1) = Some (sl', arrs')"
    and w2: "elems arrs' sl' = [None, Some 7]" by blast
  note F = frame [rule_format, OF w1]
  from F have r1: "m1\<lparr>ptr_arrays := take (length (ptr_arrays ?m)) arrs'\<rparr> = ?m"
    by (rule conjunct1)
  from F have "\<forall>s. valid_slice (ptr_arrays ?m) s \<longrightarrow> elems arrs' s = elems (ptr_arrays ?m) s"
    by (rule conjunct2)
  from this [rule_format, OF src] el
  have r2: "elems arrs' (edges (Flowcharts ?m ! 0)) = [Some 0]" by (simp only:)
  from add ok call w1 w2 r1 r2 show ?thesis by blast
qed

section \<open>ListTasks sorts by identifier\<close>

lemma tasks_inv_add:
  assumes inv: "tasks_inv g m ts" and new: "tasksMap (Gantts m ! g) i = None"
    and m': "Gantts m' = (Gantts m)[g := G']" "tasksMap G' = (tasksMap (Gantts m ! g))(i \<mapsto> length (Tasks m))"
      "sectionsMap G' = sectionsMap (Gantts m ! g)"
      "Tasks m' = Tasks m @ [T]" "Task_id T = i"
      "length (Sections m') = length (Sections m)"
      "\<forall>s < length (Sections m). Section_gantt (Sections m' ! s) = Section_gantt (Sections m ! s)"
  shows "tasks_inv g m' (ts @ [length (Tasks m)])"
proof -
  from inv have live: "g < length (Gantts m)" and r: "ran (tasksMap (Gantts m ! g)) = set ts"
    and d: "distinct ts"
    and tk: "\<forall>k p. tasksMap (Gantts m ! g) k = Some p \<longrightarrow> p < length (Tasks m) \<and> Task_id (Tasks m ! p) = k"
    and sk: "\<forall>k s. sectionsMap (Gantts m ! g) k = Some s \<longrightarrow>
        s < length (Sections m) \<and> Section_gantt (Sections m ! s) = Some g"
    by (simp_all add: tasks_inv_def)
  have G: "Gantts m' ! g = G'" using live m'(1) by simp
  have bound: "\<forall>p \<in> set ts. p < length (Tasks m)"
    using r tk by (auto simp: ran_def)
  show ?thesis
    unfolding tasks_inv_def G
  proof (intro conjI allI impI)
    show "g < length (Gantts m')" using live m'(1) by simp
    show "ran (tasksMap G') = set (ts @ [length (Tasks m)])"
      using r new by (simp add: m'(2) ran_map_upd)
    show "distinct (ts @ [length (Tasks m)])" using d bound by auto
  next
    fix k p assume "tasksMap G' k = Some p"
    then show "p < length (Tasks m')" using tk by (fastforce simp: m' less_Suc_eq split: if_splits)
  next
    fix k p assume "tasksMap G' k = Some p"
    then show "Task_id (Tasks m' ! p) = k" using tk by (fastforce simp: m' nth_append split: if_splits)
  next
    fix k s assume "sectionsMap G' k = Some s"
    then show "s < length (Sections m')" using sk by (simp add: m')
  next
    fix k s assume "sectionsMap G' k = Some s"
    then show "Section_gantt (Sections m' ! s) = Some g" using sk by (simp add: m')
  qed
qed

lemma tasks_inv_live: "tasks_inv g m ts \<Longrightarrow> g < length (Gantts m)"
  by (simp add: tasks_inv_def)

lemma AddTask_inv:
  assumes inv: "tasks_inv g m ts"
  shows "\<exists>r m'. AddTask valid g i init m = Some (r, m') \<and>
           tasks_inv g m' (ts @ task_results [OpAddTask i init] [r])"
proof (cases "tasksMap (Gantts m ! g) i = None \<and> valid i init")
  case False
  then have "\<exists>e. AddTask valid g i init m = Some ((None, Some e), m)"
    using tasks_inv_live [OF inv]
    by (auto simp: AddTask_def taskNew_def deref_def split: option.splits)
  with inv show ?thesis by auto
next
  case True
  let ?G = "Gantts m ! g"
  let ?t = "length (Tasks m)"
  let ?T = "\<lparr>Task_id = i, Task_gantt = Some g, Task_section = None\<rparr>"
  obtain s' arrs' where ap: "append_slice (growslice m) (tasks ?G) (Some ?t) (ptr_arrays m) = (s', arrs')"
    by (cases "append_slice (growslice m) (tasks ?G) (Some ?t) (ptr_arrays m)")
  let ?G' = "?G\<lparr>tasksMap := (tasksMap ?G)(i \<mapsto> ?t), tasks := s'\<rparr>"
  let ?m' = "m\<lparr>Tasks := Tasks m @ [?T], ptr_arrays := arrs', Gantts := (Gantts m)[g := ?G']\<rparr>"
  have call: "AddTask valid g i init m = Some ((Some ?t, None), ?m')"
    using True tasks_inv_live [OF inv] ap
    by (simp add: AddTask_def taskNew_def deref_def)
  have "tasks_inv g ?m' (ts @ [?t])"
    by (rule tasks_inv_add [OF inv, where i = i and G' = ?G' and T = ?T]) (use True in simp_all)
  with call show ?thesis by simp
qed

lemma AddSection_inv:
  assumes inv: "tasks_inv g m ts"
  shows "\<exists>r m'. AddSection g i m = Some (r, m') \<and> tasks_inv g m' ts"
proof (cases "sectionsMap (Gantts m ! g) i")
  case (Some s)
  then have "AddSection g i m = Some ((None, Some DuplicateIdentifier), m)"
    using tasks_inv_live [OF inv] by (simp add: AddSection_def sectionNew_def deref_def)
  with inv show ?thesis by simp
next
  case None
  let ?G = "Gantts m ! g"
  let ?s = "length (Sections m)"
  let ?S = "\<lparr>Section_id = i, Section_gantt = Some g, Section_tasks = nil_slice\<rparr>"
  obtain s' arrs' where ap: "append_slice (growslice m) (sections ?G) (Some ?s) (ptr_arrays m) = (s', arrs')"
    by (cases "append_slice (growslice m) (sections ?G) (Some ?s) (ptr_arrays m)")
  let ?m' = "m\<lparr>Sections := Sections m @ [?S], ptr_arrays := arrs',
               Gantts := (Gantts m)[g := ?G\<lparr>sectionsMap := (sectionsMap ?G)(i \<mapsto> ?s), sections := s'\<rparr>]\<rparr>"
  have call: "AddSection g i m = Some ((Some ?s, None), ?m')"
    using None tasks_inv_live [OF inv] ap
    by (simp add: AddSection_def sectionNew_def deref_def)
  have "tasks_inv g ?m' ts"
    using inv by (auto simp: tasks_inv_def nth_append less_Suc_eq)
  with call show ?thesis by simp
qed

lemma Section_AddTask_inv:
  assumes inv: "tasks_inv g m ts" and sec: "sectionsMap (Gantts m ! g) sid = Some s"
  shows "\<exists>r m'. Section_AddTask valid s i init m = Some (r, m') \<and>
           tasks_inv g m' (ts @ task_results [OpSectionAddTask sid i init] [r])"
proof -
  from inv sec have sl: "s < length (Sections m)" and sg: "Section_gantt (Sections m ! s) = Some g"
    by (simp_all add: tasks_inv_def)
  show ?thesis
  proof (cases "tasksMap (Gantts m ! g) i = None \<and> valid i init")
    case False
    then have "\<exists>e. Section_AddTask valid s i init m = Some ((None, Some e), m)"
      using tasks_inv_live [OF inv] sl sg
      by (auto simp: Section_AddTask_def taskNew_def deref_def split: option.splits)
    with inv show ?thesis by auto
  next
    case True
    let ?G = "Gantts m ! g"
    let ?S = "Sections m ! s"
    let ?t = "length (Tasks m)"
    let ?T = "\<lparr>Task_id = i, Task_gantt = Some g, Task_section = Some s\<rparr>"
    obtain s' arrs' where ap:
      "append_slice (growslice m) (Section_tasks ?S) (Some ?t) (ptr_arrays m) = (s', arrs')"
      by (cases "append_slice (growslice m) (Section_tasks ?S) (Some ?t) (ptr_arrays m)")
    let ?G' = "?G\<lparr>tasksMap := (tasksMap ?G)(i \<mapsto> ?t)\<rparr>"
    let ?m' = "m\<lparr>Tasks := Tasks m @ [?T], ptr_arrays := arrs',
                 Sections := (Sections m)[s := ?S\<lparr>Section_tasks := s'\<rparr>],
                 Gantts := (Gantts m)[g := ?G']\<rparr>"
    have call: "Section_AddTask valid s i init m = Some ((Some ?t, None), ?m')"
      using True tasks_inv_live [OF inv] ap sl sg
      by (simp add: Section_AddTask_def taskNew_def deref_def)
    have "tasks_inv g ?m' (ts @ [?t])"
      by (rule tasks_inv_add [OF inv, where i = i and G' = ?G' and T = ?T])
        (use True sl in \<open>auto simp: nth_list_update\<close>)
    with call show ?thesis by simp
  qed
qed

lemma gantt_call_inv:
  assumes inv: "tasks_inv g m ts"
  shows "\<exists>r m'. gantt_call valid g c m = Some (r, m') \<and>
           tasks_inv g m' (ts @ task_results [c] [r])"
proof (cases c)
  case (OpAddTask i init)
  with AddTask_inv [OF inv, of valid i init] show ?thesis by simp
next
  case (OpAddSection i)
  with AddSection_inv [OF inv, of i] show ?thesis by auto
next
  case (OpSectionAddTask sid i init)
  show ?thesis
  proof (cases "sectionsMap (Gantts m ! g) sid")
    case None
    with OpSectionAddTask inv tasks_inv_live [OF inv] show ?thesis
      by (simp add: GetSection_def deref_def)
  next
    case (Some s)
    from Section_AddTask_inv [OF inv Some, of valid i init] Some OpSectionAddTask
      tasks_inv_live [OF inv]
    show ?thesis by (simp add: GetSection_def deref_def)
  qed
qed

lemma task_results_Cons:
  "task_results (c # cs) (r # rs) = task_results [c] [r] @ task_results cs rs"
  by (cases "(c # cs, r # rs)" rule: task_results.cases) auto

lemma gantt_calls_inv:
  assumes "tasks_inv g m ts"
  shows "\<exists>rs m'. gantt_calls valid g cs m = Some (rs, m') \<and>
           tasks_inv g m' (ts @ task_results cs rs)"
  using assms
proof (induction cs arbitrary: m ts)
  case Nil
  then show ?case by simp
next
  case (Cons c cs)
  from gantt_call_inv [OF Cons.prems, of valid c] obtain r m1 where
    1: "gantt_call valid g c m = Some (r, m1)" and i1: "tasks_inv g m1 (ts @ task_results [c] [r])"
    by blast
  from Cons.IH [OF i1] obtain rs m2 where
    2: "gantt_calls valid g cs m1 = Some (rs, m2)"
    and i2: "tasks_inv g m2 ((ts @ task_results [c] [r]) @ task_results cs rs)" by blast
  have "gantt_calls valid g (c # cs) m = Some (r # rs, m2)" using 1 2 by simp
  moreover have "tasks_inv g m2 (ts @ task_results (c # cs) (r # rs))"
    using i2 by (simp add: task_results_Cons [of c cs r rs])
  ultimately show ?case by blast
qed

lemma those_map_Some: "those (map Some xs) = Some xs"
  by (induction xs) simp_all

lemma those_map_deref: "\<forall>p \<in> set ps. p < length h \<Longrightarrow> those (map (deref h) ps) = Some (map ((!) h) ps)"
  by (induction ps) (simp_all add: deref_def)

lemma range_values_map:
  assumes "set ord \<subseteq> dom mp"
  shows "range_values mp ord = map (\<lambda>k. the (mp k)) ord"
  using assms by (induction ord) (auto simp: range_values_def map_filter_simps)

lemma tasks_inv_range:
  assumes inv: "tasks_inv g m ts" and ord: "range_order (tasksMap (Gantts m ! g)) ord"
  shows "mset (range_values (tasksMap (Gantts m ! g)) ord) = mset ts"
    and "inj_on (\<lambda>p. Task_id (Tasks m ! p)) (set ts)"
    and "\<forall>p \<in> set ts. p < length (Tasks m)"
proof -
  let ?mp = "tasksMap (Gantts m ! g)"
  let ?vs = "range_values ?mp ord"
  from inv have r: "ran ?mp = set ts" and d: "distinct ts"
    and tk: "\<forall>k p. ?mp k = Some p \<longrightarrow> p < length (Tasks m) \<and> Task_id (Tasks m ! p) = k"
    by (simp_all add: tasks_inv_def)
  from ord have do: "distinct ord" and so: "set ord = dom ?mp" by (simp_all add: range_order_def)
  have vs: "?vs = map (\<lambda>k. the (?mp k)) ord" using so by (simp add: range_values_map)
  have inj: "inj_on (\<lambda>k. the (?mp k)) (dom ?mp)"
  proof (rule inj_onI)
    fix k k' assume "k \<in> dom ?mp" "k' \<in> dom ?mp" "the (?mp k) = the (?mp k')"
    then obtain p where "?mp k = Some p" "?mp k' = Some p" by auto
    with tk have "Task_id (Tasks m ! p) = k" "Task_id (Tasks m ! p) = k'" by blast+
    then show "k = k'" by simp
  qed
  have "distinct ?vs" unfolding vs using do inj so by (simp add: distinct_map)
  moreover have "set ?vs = set ts"
    unfolding vs r [symmetric] using so by (force simp: ran_def dom_def)
  ultimately show "mset ?vs = mset ts" using d by (simp add: set_eq_iff_mset_eq_distinct)
  show "inj_on (\<lambda>p. Task_id (Tasks m ! p)) (set ts)"
  proof (rule inj_onI)
    fix p q assume "p \<in> set ts" "q \<in> set ts" "Task_id (Tasks m ! p) = Task_id (Tasks m ! q)"
    then have "p \<in> ran ?mp" "q \<in> ran ?mp" using r by simp_all
    then obtain k k' where "?mp k = Some p" "?mp k' = Some q" unfolding ran_def by blast
    with tk \<open>Task_id (Tasks m ! p) = Task_id (Tasks m ! q)\<close> show "p = q" by (metis option.inject)
  qed
  show "\<forall>p \<in> set ts. p < length (Tasks m)" using r tk by (auto simp: ran_def)
qed

lemma sort_Slice_by_id_elems:
  assumes v: "valid_slice arrs s" and fr: "fresh_slice n s" and el: "elems arrs s = map Some ps"
    and live: "\<forall>p \<in> set ps. p < length h"
  shows "\<exists>arrs'. sort_Slice_by_id h s arrs = Some arrs' \<and>
           elems arrs' s = map Some (sort_key (\<lambda>p. Task_id (h ! p)) ps) \<and>
           take n arrs' = take n arrs"
proof -
  from fr obtain a where a: "array s = Some a" and na: "n \<le> a"
    by (auto simp: fresh_slice_def split: option.splits)
  from v a have al: "a < length arrs" by (simp add: valid_slice_def)
  from length_elems [OF v] el have n: "len s = length ps" by simp
  let ?arrs' = "arrs[a := map Some (sort_key (\<lambda>p. Task_id (h ! p)) ps) @ drop (len s) (arrs ! a)]"
  have "sort_Slice_by_id h s arrs = Some ?arrs'"
    using el live a by (simp add: sort_Slice_by_id_def those_map_Some those_map_deref)
  moreover have "elems ?arrs' s = map Some (sort_key (\<lambda>p. Task_id (h ! p)) ps)"
    using a al n by (simp add: elems_def)
  moreover have "take n ?arrs' = take n arrs" using na by (simp add: take_update_cancel)
  ultimately show ?thesis by blast
qed

lemma ListTasks_sorted:
  assumes inv: "tasks_inv g m ts" and ord: "range_order (tasksMap (Gantts m ! g)) ord"
  shows "\<exists>sl m'. ListTasks ord g m = Some (sl, m') \<and>
           elems (ptr_arrays m') sl = map Some (sort_key (\<lambda>p. Task_id (Tasks m ! p)) ts) \<and>
           Gantts m' = Gantts m \<and> Tasks m' = Tasks m"
proof -
  let ?vs = "range_values (tasksMap (Gantts m ! g)) ord"
  let ?f = "\<lambda>p. Task_id (Tasks m ! p)"
  note R = tasks_inv_range [OF inv ord]
  obtain allTasks arrs where f: "(allTasks, arrs) =
       foldl (\<lambda>(vs, arrs) v. append_slice (growslice m) vs (Some v) arrs)
         (make_slice 0 (length ord) (ptr_arrays m)) ?vs"
    by (metis surj_pair)
  from list_from_map [OF f] have fr: "fresh_slice (length (ptr_arrays m)) allTasks"
    and el: "elems arrs allTasks = map Some ?vs" and v: "valid_slice arrs allTasks" by simp_all
  have "set ?vs = set ts" using R(1) by (metis set_mset_mset)
  with R(3) have live: "\<forall>p \<in> set ?vs. p < length (Tasks m)" by simp
  from sort_Slice_by_id_elems [OF v fr el live] obtain arrs' where
    srt: "sort_Slice_by_id (Tasks m) allTasks arrs = Some arrs'"
    and el': "elems arrs' allTasks = map Some (sort_key ?f ?vs)" by blast
  have "inj_on ?f (set ?vs)" using R(2) \<open>set ?vs = set ts\<close> by simp
  with R(1) have "sort_key ?f ?vs = sort_key ?f ts" by (simp add: sort_key_eq_sort_key)
  with el' have el'': "elems arrs' allTasks = map Some (sort_key ?f ts)" by simp
  have "ListTasks ord g m = Some (allTasks, m\<lparr>ptr_arrays := arrs'\<rparr>)"
    using tasks_inv_live [OF inv] f [symmetric] srt by (simp add: ListTasks_def deref_def)
  with el'' show ?thesis by simp
qed

lemma NewGantt_Title_success:
  assumes "NewGantt_Title init g m = ((Some g', None), m')"
  shows "g' = g \<and> (\<exists>v. Gantts m' = (Gantts m)[g := (Gantts m ! g)\<lparr>Title := v\<rparr>]) \<and>
         Tasks m' = Tasks m \<and> Sections m' = Sections m"
  using assms by (cases "init ! 0") (auto simp: NewGantt_Title_def)

lemma tasks_inv_NewGantt:
  assumes "NewGantt init m0 = ((Some g, None), m1)"
  shows "tasks_inv g m1 []"
proof -
  let ?G0 = "\<lparr>sectionsMap = Map.empty, sections = nil_slice, tasksMap = Map.empty,
              tasks = nil_slice, Title = [], AxisFormat = []\<rparr>"
  have "g = length (Gantts m0) \<and> (\<exists>t a. Gantts m1 = Gantts m0 @ [?G0\<lparr>Title := t, AxisFormat := a\<rparr>])"
  proof (cases "1 < length init")
    case True
    show ?thesis
    proof (cases "init ! 1")
      case (StringVal v)
      with True assms have "NewGantt_Title init (length (Gantts m0))
          (m0\<lparr>Gantts := Gantts m0 @ [?G0\<lparr>AxisFormat := v\<rparr>]\<rparr>) = ((Some g, None), m1)"
        by (simp add: NewGantt_def Let_def)
      from NewGantt_Title_success [OF this] show ?thesis by auto
    next
      case (AxisFormatVal v)
      with True assms have "NewGantt_Title init (length (Gantts m0))
          (m0\<lparr>Gantts := Gantts m0 @ [?G0\<lparr>AxisFormat := v\<rparr>]\<rparr>) = ((Some g, None), m1)"
        by (simp add: NewGantt_def Let_def)
      from NewGantt_Title_success [OF this] show ?thesis by auto
    next
      case (OtherVal x)
      with True assms show ?thesis by (simp add: NewGantt_def Let_def)
    qed
  next
    case False
    show ?thesis
    proof (cases "0 < length init")
      case True
      with False assms have "NewGantt_Title init (length (Gantts m0))
          (m0\<lparr>Gantts := Gantts m0 @ [?G0]\<rparr>) = ((Some g, None), m1)"
        by (simp add: NewGantt_def Let_def)
      from NewGantt_Title_success [OF this] show ?thesis by auto
    next
      case False
      with assms show ?thesis by (auto simp: NewGantt_def Let_def)
    qed
  qed
  then show ?thesis by (auto simp: tasks_inv_def)
qed

text \<open>
  C5: a Gantt diagram is created by \<open>NewGantt\<close> and a client makes any list of calls that
  add Tasks, to the diagram or to its Sections, and Sections. No call panics, and there
  is one list \<open>ps\<close> of Tasks, holding exactly the Tasks that the calls returned and
  strictly ascending in the lexicographic order of their identifiers, such that
  \<open>ListTasks\<close> returns a slice with the elements \<open>ps\<close> in whatever order the runtime
  ranges over the table. \<open>ListTasks\<close> keeps nothing: it leaves the diagram and the Tasks
  as they are, and since the list of calls is any list, a call after further additions
  lists the Tasks of that moment.
\<close>

theorem ListTasks_sorted_by_id:
  assumes "NewGantt init m0 = ((Some g, None), m1)"
  shows "\<exists>rs m ps. gantt_calls valid g cs m1 = Some (rs, m) \<and>
           mset ps = mset (task_results cs rs) \<and>
           sorted_wrt (<) (map (\<lambda>p. Task_id (Tasks m ! p)) ps) \<and>
           (\<forall>ord. range_order (tasksMap (Gantts m ! g)) ord \<longrightarrow>
              (\<exists>sl m'. ListTasks ord g m = Some (sl, m') \<and> elems (ptr_arrays m') sl = map Some ps \<and>
                 Gantts m' = Gantts m \<and> Tasks m' = Tasks m))"
proof -
  from gantt_calls_inv [OF tasks_inv_NewGantt [OF assms], of valid cs] obtain rs m where
    run: "gantt_calls valid g cs m1 = Some (rs, m)" and inv: "tasks_inv g m (task_results cs rs)"
    by auto
  let ?ts = "task_results cs rs"
  let ?f = "\<lambda>p. Task_id (Tasks m ! p)"
  let ?ps = "sort_key ?f ?ts"
  from inv have d: "distinct ?ts" by (simp add: tasks_inv_def)
  have inj: "inj_on ?f (set ?ts)"
  proof (rule inj_onI)
    fix p q assume pq: "p \<in> set ?ts" "q \<in> set ?ts" "?f p = ?f q"
    from inv have r: "ran (tasksMap (Gantts m ! g)) = set ?ts"
      and tk: "\<forall>k p. tasksMap (Gantts m ! g) k = Some p \<longrightarrow> p < length (Tasks m) \<and> Task_id (Tasks m ! p) = k"
      by (simp_all add: tasks_inv_def)
    from pq r have "p \<in> ran (tasksMap (Gantts m ! g))" "q \<in> ran (tasksMap (Gantts m ! g))" by simp_all
    then obtain k k' where "tasksMap (Gantts m ! g) k = Some p" "tasksMap (Gantts m ! g) k' = Some q"
      unfolding ran_def by blast
    with tk pq(3) show "p = q" by (metis option.inject)
  qed
  have "distinct (map ?f ?ps)" using d inj by (simp add: distinct_map)
  moreover have "sorted (map ?f ?ps)" by simp
  ultimately have s: "sorted_wrt (<) (map ?f ?ps)" by (simp add: strict_sorted_iff)
  have "mset ?ps = mset ?ts" by simp
  with run s ListTasks_sorted [OF inv] show ?thesis by blast
qed

lemma two_elems: "mset ps = {#a, b#} \<Longrightarrow> ps = [a, b] \<or> ps = [b, a]"
proof -
  assume a: "mset ps = {#a, b#}"
  then have "length ps = 2" by (metis length_Cons list.size(3) mset.simps(1) mset.simps(2) numeral_2_eq_2 size_mset)
  then obtain x y where ps: "ps = [x, y]"
    by (metis length_0_conv length_Suc_conv numeral_2_eq_2)
  with a show ?thesis by (auto simp: add_eq_conv_diff split: if_splits)
qed

theorem ListTasks_sorted_by_id_witness:
  "fst (NewGantt ([] :: unit iface list) empty_mem) = (Some 0, None) \<and>
   (\<exists>rs m ps sl m'.
      gantt_calls (\<lambda>i init. True) 0
        [OpAddTask ''b'' [], OpAddSection ''s'', OpSectionAddTask ''s'' ''a'' ([] :: unit iface list)]
        (snd (NewGantt ([] :: unit iface list) empty_mem)) = Some (rs, m) \<and>
      range_order (tasksMap (Gantts m ! 0)) [''b'', ''a''] \<and>
      ListTasks [''b'', ''a''] 0 m = Some (sl, m') \<and>
      elems (ptr_arrays m') sl = map Some ps \<and>
      map (\<lambda>p. Task_id (Tasks m ! p)) ps = [''a'', ''b''])"
proof -
  let ?cs = "[OpAddTask ''b'' [], OpAddSection ''s'', OpSectionAddTask ''s'' ''a'' ([] :: unit iface list)]"
  let ?m1 = "snd (NewGantt ([] :: unit iface list) empty_mem)"
  have new: "NewGantt ([] :: unit iface list) empty_mem = ((Some 0, None), ?m1)"
    by (simp add: NewGantt_def empty_mem_def)
  from ListTasks_sorted_by_id [OF new, of "\<lambda>i init. True" ?cs] obtain rs m ps where
    run: "gantt_calls (\<lambda>i init. True) 0 ?cs ?m1 = Some (rs, m)"
    and ms: "mset ps = mset (task_results ?cs rs)"
    and srt: "sorted_wrt (<) (map (\<lambda>p. Task_id (Tasks m ! p)) ps)"
    and lst: "\<forall>ord. range_order (tasksMap (Gantts m ! 0)) ord \<longrightarrow>
              (\<exists>sl m'. ListTasks ord 0 m = Some (sl, m') \<and> elems (ptr_arrays m') sl = map Some ps \<and>
                 Gantts m' = Gantts m \<and> Tasks m' = Tasks m)"
    by blast
  have "\<exists>m. gantt_calls (\<lambda>i init. True) 0 ?cs ?m1
       = Some ([(Some 0, None), (Some 0, None), (Some 1, None)], m) \<and>
     map Task_id (Tasks m) = [''b'', ''a''] \<and> dom (tasksMap (Gantts m ! 0)) = {''a'', ''b''}"
    by (simp add: NewGantt_def empty_mem_def AddTask_def AddSection_def Section_AddTask_def
        taskNew_def sectionNew_def GetSection_def deref_def append_slice_def nil_slice_def
        elems_def Let_def insert_commute)
  with run have rs: "rs = [(Some 0, None), (Some 0, None), (Some 1, None)]"
    and tk: "map Task_id (Tasks m) = [''b'', ''a'']"
    and dm: "dom (tasksMap (Gantts m ! 0)) = {''a'', ''b''}"
    by auto
  from dm have ro: "range_order (tasksMap (Gantts m ! 0)) [''b'', ''a'']"
    by (auto simp: range_order_def)
  from rs ms have "mset ps = {#0, 1#}" by simp
  then have ps: "ps = [0, 1] \<or> ps = [1, 0]" by (rule two_elems)
  from tk obtain T0 T1 where T: "Tasks m = [T0, T1]" "Task_id T0 = ''b''" "Task_id T1 = ''a''"
    by auto
  from ps srt T have ids: "map (\<lambda>p. Task_id (Tasks m ! p)) ps = [''a'', ''b'']"
    by auto
  from lst ro obtain sl m' where l1: "ListTasks [''b'', ''a''] 0 m = Some (sl, m')"
    and l2: "elems (ptr_arrays m') sl = map Some ps" by blast
  show ?thesis
  proof (intro conjI exI)
    show "fst (NewGantt ([] :: unit iface list) empty_mem) = (Some 0, None)"
      by (simp add: NewGantt_def empty_mem_def)
    show "gantt_calls (\<lambda>i init. True) 0 ?cs ?m1 = Some (rs, m)" by (rule run)
    show "range_order (tasksMap (Gantts m ! 0)) [''b'', ''a'']" by (rule ro)
    show "ListTasks [''b'', ''a''] 0 m = Some (sl, m')" by (rule l1)
    show "elems (ptr_arrays m') sl = map Some ps" by (rule l2)
    show "map (\<lambda>p. Task_id (Tasks m ! p)) ps = [''a'', ''b'']" by (rule ids)
  qed
qed

section \<open>Rendering twice\<close>

text \<open>
  Two renders of one unmodified Flowchart need not be identical. With two node styles
  registered, the loop over the table of styles can visit \<open>a\<close> before \<open>b\<close> in one call of
  \<open>String\<close> and \<open>b\<close> before \<open>a\<close> in the next: the two texts hold the two style lines in
  different orders.
\<close>

theorem two_renders_differ:
  "flow_calls 0 [OpNodeStyle ''a'', OpNodeStyle ''b''] (snd (NewFlowchart empty_mem))
     = Some ([Some 0, Some 1], two_styles_mem) \<and>
   range_order (nodeStyles (Flowcharts two_styles_mem ! 0)) [''a'', ''b''] \<and>
   range_order (nodeStyles (Flowcharts two_styles_mem ! 0)) [''b'', ''a''] \<and>
   Flowchart_String style_line_methods [''a'', ''b''] 0 two_styles_mem
     = Some ''graph TB\<newline>classDef a\<newline>classDef b\<newline>\<newline>\<newline>'' \<and>
   Flowchart_String style_line_methods [''b'', ''a''] 0 two_styles_mem
     = Some ''graph TB\<newline>classDef b\<newline>classDef a\<newline>\<newline>\<newline>'' \<and>
   Flowchart_String style_line_methods [''a'', ''b''] 0 two_styles_mem
     \<noteq> Flowchart_String style_line_methods [''b'', ''a''] 0 two_styles_mem"
  by (simp add: two_styles_mem_def NewFlowchart_def empty_mem_def Flowchart_NodeStyle_def deref_def
      nil_slice_def DirectionTopDown_def range_order_def Flowchart_String_def elems_def
      range_values_def map_filter_simps style_line_methods_def insert_commute)

lemma foldl_append_concat: "foldl (\<lambda>t x. t @ f x) t xs = t @ concat (map f xs)"
  by (induction xs arbitrary: t) simp_all

lemma range_order_mset:
  assumes "range_order mp o1" and "range_order mp o2"
  shows "mset (range_values mp o1) = mset (range_values mp o2)"
proof -
  from assms have "mset o1 = mset o2"
    by (simp add: range_order_def set_eq_iff_mset_eq_distinct [symmetric])
  then have "mset (map (\<lambda>k. the (mp k)) o1) = mset (map (\<lambda>k. the (mp k)) o2)"
    by (metis mset_map)
  with assms show ?thesis by (simp add: range_order_def range_values_map)
qed

lemma range_order_unique:
  assumes "range_order mp o1" and "range_order mp o2" and "card (dom mp) \<le> 1"
  shows "o1 = o2"
proof -
  from assms have l1: "length o1 \<le> 1" and l2: "length o2 \<le> 1"
    by (auto simp: range_order_def dest: distinct_card)
  from assms have s: "set o1 = set o2" by (simp add: range_order_def)
  from l1 l2 s show ?thesis
    by (cases o1; cases o2) (auto split: if_splits)
qed

lemma range_order_exists: "finite (dom mp) \<Longrightarrow> \<exists>ord. range_order mp ord"
  unfolding range_order_def using finite_distinct_list [of "dom mp"] by blast

text \<open>
  The text of a well-formed diagram, written out: the loops of \<open>String\<close> are
  concatenations in the order of the slices.
\<close>

lemma Flowchart_String_text:
  assumes "deref (Flowcharts m) fc = Some f"
    and "those (elems (item_arrays m) (items f)) = Some its"
    and "those (elems (ptr_arrays m) (edges f)) = Some es"
  shows "Flowchart_String M ord fc m =
     Some ((''graph '' @ Direction f @ ''\<newline>'' @
            (case DefaultEdgeStyle f of
               None \<Rightarrow> []
             | Some s \<Rightarrow> Sprintf M (EdgeStyle_String M m s) ''default'')) @
           concat (map (NodeStyle_String M m) (range_values (nodeStyles f) ord)) @
           (''\<newline>'' @ concat (map (renderGraph M m) its) @ ''\<newline>'' @
            concat (map (Edge_String M m) es)))"
  using assms
  by (simp add: Flowchart_String_def foldl_append_concat split: option.splits)

lemma Gantt_String_text:
  assumes "deref (Gantts m) g = Some G"
    and "those (elems (ptr_arrays m) (tasks G)) = Some ts"
    and "those (elems (ptr_arrays m) (sections G)) = Some ss"
  shows "Gantt_String M g m =
     Some (''gantt\<newline>dateFormat YYYY-MM-DDTHH:mm:ssZ\<newline>'' @
           (if AxisFormat G = [] then [] else ''axisFormat '' @ AxisFormat G @ ''\<newline>'') @
           (if Title G = [] then [] else ''title '' @ Title G @ ''\<newline>'') @
           concat (map (Task_String M m) ts) @ concat (map (Section_String M m) ss))"
  using assms
  by (simp add: Gantt_String_def foldl_append_concat)

text \<open>
  C2, as amended. The methods of the entities are taken as functions of the memory.

  A Flowchart that is in memory, with no nil item and no nil edge and a finite table of
  node styles: the runtime has an order to range over the table; for every such order
  \<open>String\<close> returns the header line and the default style line, then the lines of the
  registered node styles in that order, then an empty line, the items in the order of
  the slice, an empty line and the edges in the order of the slice; the style lines of
  one render are a permutation of those of any other render; and with at most one node
  style registered there is one text that every render returns.

  A Gantt diagram that is in memory, with no nil task and no nil section: \<open>String\<close>
  returns the two header lines, the axisFormat line and the title line if set, the local
  tasks and the sections in the order of the slices. No order of a table enters.
\<close>

theorem render_twice_up_to_style_order:
  "(deref (Flowcharts m) fc = Some f \<and>
    those (elems (item_arrays m) (items f)) = Some its \<and>
    those (elems (ptr_arrays m) (edges f)) = Some es \<and>
    finite (dom (nodeStyles f)) \<longrightarrow>
      (\<exists>ord. range_order (nodeStyles f) ord) \<and>
      (\<forall>ord. range_order (nodeStyles f) ord \<longrightarrow>
         Flowchart_String M ord fc m =
           Some ((''graph '' @ Direction f @ ''\<newline>'' @
                  (case DefaultEdgeStyle f of
                     None \<Rightarrow> []
                   | Some s \<Rightarrow> Sprintf M (EdgeStyle_String M m s) ''default'')) @
                 concat (map (NodeStyle_String M m) (range_values (nodeStyles f) ord)) @
                 (''\<newline>'' @ concat (map (renderGraph M m) its) @ ''\<newline>'' @
                  concat (map (Edge_String M m) es)))) \<and>
      (\<forall>o1 o2. range_order (nodeStyles f) o1 \<and> range_order (nodeStyles f) o2 \<longrightarrow>
         mset (map (NodeStyle_String M m) (range_values (nodeStyles f) o1)) =
         mset (map (NodeStyle_String M m) (range_values (nodeStyles f) o2))) \<and>
      (card (dom (nodeStyles f)) \<le> 1 \<longrightarrow>
         (\<exists>t. \<forall>ord. range_order (nodeStyles f) ord \<longrightarrow> Flowchart_String M ord fc m = Some t))) \<and>
   (deref (Gantts m) g = Some G \<and>
    those (elems (ptr_arrays m) (tasks G)) = Some ts \<and>
    those (elems (ptr_arrays m) (sections G)) = Some ss \<longrightarrow>
      Gantt_String M g m =
        Some (''gantt\<newline>dateFormat YYYY-MM-DDTHH:mm:ssZ\<newline>'' @
              (if AxisFormat G = [] then [] else ''axisFormat '' @ AxisFormat G @ ''\<newline>'') @
              (if Title G = [] then [] else ''title '' @ Title G @ ''\<newline>'') @
              concat (map (Task_String M m) ts) @ concat (map (Section_String M m) ss)))"
proof (intro conjI impI)
  assume a: "deref (Flowcharts m) fc = Some f \<and>
    those (elems (item_arrays m) (items f)) = Some its \<and>
    those (elems (ptr_arrays m) (edges f)) = Some es \<and>
    finite (dom (nodeStyles f))"
  then have live: "deref (Flowcharts m) fc = Some f"
    and its: "those (elems (item_arrays m) (items f)) = Some its"
    and es: "those (elems (ptr_arrays m) (edges f)) = Some es"
    and fin: "finite (dom (nodeStyles f))" by simp_all
  note T = Flowchart_String_text [OF live its es]
  show "\<exists>ord. range_order (nodeStyles f) ord" using fin by (rule range_order_exists)
  show "\<forall>ord. range_order (nodeStyles f) ord \<longrightarrow>
         Flowchart_String M ord fc m =
           Some ((''graph '' @ Direction f @ ''\<newline>'' @
                  (case DefaultEdgeStyle f of
                     None \<Rightarrow> []
                   | Some s \<Rightarrow> Sprintf M (EdgeStyle_String M m s) ''default'')) @
                 concat (map (NodeStyle_String M m) (range_values (nodeStyles f) ord)) @
                 (''\<newline>'' @ concat (map (renderGraph M m) its) @ ''\<newline>'' @
                  concat (map (Edge_String M m) es)))"
    by (intro allI impI) (rule T)
  show "\<forall>o1 o2. range_order (nodeStyles f) o1 \<and> range_order (nodeStyles f) o2 \<longrightarrow>
         mset (map (NodeStyle_String M m) (range_values (nodeStyles f) o1)) =
         mset (map (NodeStyle_String M m) (range_values (nodeStyles f) o2))"
  proof (intro allI impI)
    fix o1 o2 assume "range_order (nodeStyles f) o1 \<and> range_order (nodeStyles f) o2"
    then have "mset (range_values (nodeStyles f) o1) = mset (range_values (nodeStyles f) o2)"
      by (simp add: range_order_mset)
    then show "mset (map (NodeStyle_String M m) (range_values (nodeStyles f) o1)) =
         mset (map (NodeStyle_String M m) (range_values (nodeStyles f) o2))"
      by (metis mset_map)
  qed
  assume c: "card (dom (nodeStyles f)) \<le> 1"
  from fin obtain o0 where o0: "range_order (nodeStyles f) o0" using range_order_exists by blast
  have "\<forall>ord. range_order (nodeStyles f) ord \<longrightarrow>
      Flowchart_String M ord fc m = Flowchart_String M o0 fc m"
    using range_order_unique [OF _ o0 c] by blast
  then have "\<forall>ord. range_order (nodeStyles f) ord \<longrightarrow>
      Flowchart_String M ord fc m = Some (the (Flowchart_String M o0 fc m))"
    by (simp add: T)
  then show "\<exists>t. \<forall>ord. range_order (nodeStyles f) ord \<longrightarrow> Flowchart_String M ord fc m = Some t"
    by (rule exI)
next
  assume "deref (Gantts m) g = Some G \<and>
    those (elems (ptr_arrays m) (tasks G)) = Some ts \<and>
    those (elems (ptr_arrays m) (sections G)) = Some ss"
  then show "Gantt_String M g m =
        Some (''gantt\<newline>dateFormat YYYY-MM-DDTHH:mm:ssZ\<newline>'' @
              (if AxisFormat G = [] then [] else ''axisFormat '' @ AxisFormat G @ ''\<newline>'') @
              (if Title G = [] then [] else ''title '' @ Title G @ ''\<newline>'') @
              concat (map (Task_String M m) ts) @ concat (map (Section_String M m) ss))"
    by (simp add: Gantt_String_text)
qed

theorem render_twice_up_to_style_order_witness:
  "(deref (Flowcharts example_chart_mem) 0 = Some (Flowcharts example_chart_mem ! 0) \<and>
    those (elems (item_arrays example_chart_mem) (items (Flowcharts example_chart_mem ! 0)))
      = Some [NodeItem 0, SubgraphItem 0] \<and>
    those (elems (ptr_arrays example_chart_mem) (edges (Flowcharts example_chart_mem ! 0))) = Some [0] \<and>
    finite (dom (nodeStyles (Flowcharts example_chart_mem ! 0)))) \<and>
   range_order (nodeStyles (Flowcharts example_chart_mem ! 0)) [''a'', ''b''] \<and>
   range_order (nodeStyles (Flowcharts example_chart_mem ! 0)) [''b'', ''a''] \<and>
   Flowchart_String example_methods [''a'', ''b''] 0 example_chart_mem =
     Some ''graph TB\<newline>classDef a\<newline>classDef b\<newline>\<newline>A\<newline>subgraph S\<newline>end\<newline>\<newline>A-->A\<newline>'' \<and>
   Flowchart_String example_methods [''b'', ''a''] 0 example_chart_mem =
     Some ''graph TB\<newline>classDef b\<newline>classDef a\<newline>\<newline>A\<newline>subgraph S\<newline>end\<newline>\<newline>A-->A\<newline>'' \<and>
   mset (map (NodeStyle_String example_methods example_chart_mem)
          (range_values (nodeStyles (Flowcharts example_chart_mem ! 0)) [''a'', ''b''])) =
   mset (map (NodeStyle_String example_methods example_chart_mem)
          (range_values (nodeStyles (Flowcharts example_chart_mem ! 0)) [''b'', ''a''])) \<and>
   (deref (Flowcharts one_style_mem) 0 = Some (Flowcharts one_style_mem ! 0) \<and>
    those (elems (item_arrays one_style_mem) (items (Flowcharts one_style_mem ! 0))) = Some [] \<and>
    those (elems (ptr_arrays one_style_mem) (edges (Flowcharts one_style_mem ! 0))) = Some [] \<and>
    finite (dom (nodeStyles (Flowcharts one_style_mem ! 0)))) \<and>
   card (dom (nodeStyles (Flowcharts one_style_mem ! 0))) \<le> 1 \<and>
   (\<exists>t. \<forall>ord. range_order (nodeStyles (Flowcharts one_style_mem ! 0)) ord \<longrightarrow>
          Flowchart_String example_methods ord 0 one_style_mem = Some t) \<and>
   (deref (Gantts example_gantt_mem) 0 = Some (Gantts example_gantt_mem ! 0) \<and>
    those (elems (ptr_arrays example_gantt_mem) (tasks (Gantts example_gantt_mem ! 0))) = Some [0, 1] \<and>
    those (elems (ptr_arrays example_gantt_mem) (sections (Gantts example_gantt_mem ! 0))) = Some [0]) \<and>
   Gantt_String example_methods 0 example_gantt_mem =
     Some ''gantt\<newline>dateFormat YYYY-MM-DDTHH:mm:ssZ\<newline>title plan\<newline>b\<newline>a\<newline>section s\<newline>''"
proof -
  let ?m = example_chart_mem and ?f = "Flowcharts example_chart_mem ! 0"
  let ?m1 = one_style_mem and ?f1 = "Flowcharts one_style_mem ! 0"
  let ?mg = example_gantt_mem and ?G = "Gantts example_gantt_mem ! 0"
  have chart: "deref (Flowcharts ?m) 0 = Some ?f \<and>
      those (elems (item_arrays ?m) (items ?f)) = Some [NodeItem 0, SubgraphItem 0] \<and>
      those (elems (ptr_arrays ?m) (edges ?f)) = Some [0] \<and>
      finite (dom (nodeStyles ?f))"
    and ab: "range_order (nodeStyles ?f) [''a'', ''b'']"
    and ba: "range_order (nodeStyles ?f) [''b'', ''a'']"
    by (simp_all add: example_chart_mem_def NewFlowchart_def empty_mem_def Flowchart_NodeStyle_def
        deref_def AddNode_def AddSubgraph_def AddEdge_def append_slice_def elems_def Let_def
        nil_slice_def range_order_def insert_commute)
  have one: "deref (Flowcharts ?m1) 0 = Some ?f1 \<and>
      those (elems (item_arrays ?m1) (items ?f1)) = Some [] \<and>
      those (elems (ptr_arrays ?m1) (edges ?f1)) = Some [] \<and>
      finite (dom (nodeStyles ?f1))"
    and card: "card (dom (nodeStyles ?f1)) \<le> 1"
    by (simp_all add: one_style_mem_def NewFlowchart_def empty_mem_def Flowchart_NodeStyle_def
        deref_def elems_def nil_slice_def)
  have gantt: "deref (Gantts ?mg) 0 = Some ?G \<and>
      those (elems (ptr_arrays ?mg) (tasks ?G)) = Some [0, 1] \<and>
      those (elems (ptr_arrays ?mg) (sections ?G)) = Some [0]"
    by (simp add: example_gantt_mem_def NewGantt_def NewGantt_Title_def empty_mem_def AddTask_def
        AddSection_def taskNew_def sectionNew_def deref_def append_slice_def elems_def Let_def
        nil_slice_def)
  note C = render_twice_up_to_style_order [where m = ?m and fc = 0 and f = ?f
      and its = "[NodeItem 0, SubgraphItem 0]" and es = "[0]" and M = example_methods,
      THEN conjunct1, THEN mp, OF chart]
  note C1 = render_twice_up_to_style_order [where m = ?m1 and fc = 0 and f = ?f1
      and its = "[]" and es = "[]" and M = example_methods, THEN conjunct1, THEN mp, OF one]
  note CG = render_twice_up_to_style_order [where m = ?mg and g = 0 and G = ?G
      and ts = "[0, 1]" and ss = "[0]" and M = example_methods, THEN conjunct2, THEN mp, OF gantt]
  from C have texts: "\<forall>ord. range_order (nodeStyles ?f) ord \<longrightarrow>
         Flowchart_String example_methods ord 0 ?m =
           Some ((''graph '' @ Direction ?f @ ''\<newline>'' @
                  (case DefaultEdgeStyle ?f of
                     None \<Rightarrow> []
                   | Some s \<Rightarrow> Sprintf example_methods (EdgeStyle_String example_methods ?m s) ''default'')) @
                 concat (map (NodeStyle_String example_methods ?m) (range_values (nodeStyles ?f) ord)) @
                 (''\<newline>'' @ concat (map (renderGraph example_methods ?m) [NodeItem 0, SubgraphItem 0]) @
                  ''\<newline>'' @ concat (map (Edge_String example_methods ?m) [0])))"
    and perm: "\<forall>o1 o2. range_order (nodeStyles ?f) o1 \<and> range_order (nodeStyles ?f) o2 \<longrightarrow>
         mset (map (NodeStyle_String example_methods ?m) (range_values (nodeStyles ?f) o1)) =
         mset (map (NodeStyle_String example_methods ?m) (range_values (nodeStyles ?f) o2))"
    by blast+
  have t_ab: "Flowchart_String example_methods [''a'', ''b''] 0 ?m =
     Some ''graph TB\<newline>classDef a\<newline>classDef b\<newline>\<newline>A\<newline>subgraph S\<newline>end\<newline>\<newline>A-->A\<newline>''"
    using texts [rule_format, OF ab]
    by (simp add: example_chart_mem_def NewFlowchart_def empty_mem_def Flowchart_NodeStyle_def
        deref_def AddNode_def AddSubgraph_def AddEdge_def append_slice_def elems_def Let_def
        nil_slice_def DirectionTopDown_def range_values_def map_filter_simps example_methods_def)
  have t_ba: "Flowchart_String example_methods [''b'', ''a''] 0 ?m =
     Some ''graph TB\<newline>classDef b\<newline>classDef a\<newline>\<newline>A\<newline>subgraph S\<newline>end\<newline>\<newline>A-->A\<newline>''"
    using texts [rule_format, OF ba]
    by (simp add: example_chart_mem_def NewFlowchart_def empty_mem_def Flowchart_NodeStyle_def
        deref_def AddNode_def AddSubgraph_def AddEdge_def append_slice_def elems_def Let_def
        nil_slice_def DirectionTopDown_def range_values_def map_filter_simps example_methods_def)
  from perm ab ba have p: "mset (map (NodeStyle_String example_methods ?m)
          (range_values (nodeStyles ?f) [''a'', ''b''])) =
      mset (map (NodeStyle_String example_methods ?m) (range_values (nodeStyles ?f) [''b'', ''a'']))"
    by blast
  from C1 card have single: "\<exists>t. \<forall>ord. range_order (nodeStyles ?f1) ord \<longrightarrow>
          Flowchart_String example_methods ord 0 ?m1 = Some t"
    by blast
  have tg: "Gantt_String example_methods 0 ?mg =
     Some ''gantt\<newline>dateFormat YYYY-MM-DDTHH:mm:ssZ\<newline>title plan\<newline>b\<newline>a\<newline>section s\<newline>''"
    using CG
    by (simp add: example_gantt_mem_def NewGantt_def NewGantt_Title_def empty_mem_def AddTask_def
        AddSection_def taskNew_def sectionNew_def deref_def append_slice_def elems_def Let_def
        nil_slice_def example_methods_def)
  from chart ab ba t_ab t_ba p one card single gantt tg show ?thesis
    by (elim conjE, intro conjI) assumption+
qed

section \<open>The export reports no error\<close>











end
